theory Spec2Isabelle
  imports Main
begin

section \<open>Google Cloud SQL log ingestion: data model\<close>

text \<open>
  The development embeds \<^verbatim>\<open>input/system/google_cloudsql/logs.go\<close>. Go's \<^verbatim>\<open>time.Time\<close>
  is an instant, modelled as the number of nanoseconds since the zero time (January 1,
  year 1, 00:00:00 UTC): \<^verbatim>\<open>IsZero\<close> is equality with 0, \<^verbatim>\<open>Before\<close> is \<open><\<close>, and
  \<^verbatim>\<open>Add\<close> adds a duration in nanoseconds. Go strings are byte sequences and become
  \<^typ>\<open>string\<close>.
\<close>

type_synonym Time = int
type_synonym Duration = int

definition IsZero :: "Time \<Rightarrow> bool" where
  "IsZero t = (t = 0)"

definition Before :: "Time \<Rightarrow> Time \<Rightarrow> bool" where
  "Before t u = (t < u)"

definition Add :: "Time \<Rightarrow> Duration \<Rightarrow> Time" where
  "Add t d = t + d"

definition Minute :: Duration where
  "Minute = 60000000000"

record LogStreamItem =
  GcpProjectID :: string
  GcpCloudSQLInstanceID :: string
  OccurredAt :: Time
  Content :: string

text \<open>
  \<^verbatim>\<open>config.ServerConfig\<close>, \<^verbatim>\<open>state.Server\<close>, \<^verbatim>\<open>state.LogLine\<close> and
  \<^verbatim>\<open>state.ParsedLogStreamItem\<close> are declared in other packages; only the fields this
  file reads or writes are kept. The server identifier and the fields of a log line
  other than its occurrence timestamp are type parameters.
\<close>

record 'id ServerConfig =
  SectionName :: string
  GcpPubsubSubscription :: string
  GcpCredentialsFile :: string
  cfg_GcpProjectID :: string
  cfg_GcpCloudSQLInstanceID :: string
  Identifier :: 'id

record 'id Server =
  Config :: "'id ServerConfig"

record 'l LogLine =
  ll_OccurredAt :: Time
  ll_Fields :: 'l

record ('id, 'l) ParsedLogStreamItem =
  psi_Identifier :: 'id
  psi_LogLine :: "'l LogLine"

text \<open>
  A logger is either the one handed in by the caller or one derived from it by
  \<^verbatim>\<open>WithPrefix\<close>; a log entry records the logger, the level and the formatted message.
\<close>

datatype Logger = BaseLogger | WithPrefix Logger string

datatype log_level = Verbose | Error | Warning

type_synonym log_entry = "Logger \<times> log_level \<times> string"

section \<open>The stream transformer\<close>

text \<open>
  The state the transformer goroutine acts on: the items sent to the output channel so
  far (oldest first), the log, and the wait group counter. A send is modelled as
  appending to the list: that a send blocks while the channel is full is not modelled.
\<close>

record ('id, 'l) transformer_state =
  out :: "('id, 'l) ParsedLogStreamItem list"
  tlog :: "log_entry list"
  twg :: int

text \<open>What one round of the \<^verbatim>\<open>select\<close> statement observes.\<close>

datatype chan_event = CtxDone | ChanClosed | Recv LogStreamItem

text \<open>The routing loop of lines 180 to 184, one server at a time.\<close>

fun routeLogLine ::
  "LogStreamItem \<Rightarrow> 'l LogLine \<Rightarrow> 'id Server list \<Rightarrow>
   ('id, 'l) transformer_state \<Rightarrow> ('id, 'l) transformer_state" where
  "routeLogLine inp logLine [] st = st"
| "routeLogLine inp logLine (server # servers) st =
     (if GcpProjectID inp = cfg_GcpProjectID (Config server) \<and>
         GcpCloudSQLInstanceID inp = cfg_GcpCloudSQLInstanceID (Config server)
      then routeLogLine inp logLine servers
             (st\<lparr>out := out st @
                [\<lparr>psi_Identifier = Identifier (Config server), psi_LogLine = logLine\<rparr>]\<rparr>)
      else routeLogLine inp logLine servers st)"

text \<open>
  The body of the \<^verbatim>\<open>case in, ok := <-in\<close> branch for a received record. The line
  parser \<^verbatim>\<open>logs.ParseLogLineWithPrefix\<close> is a parameter. \<open>CHR 0x22\<close> is the double quote
  of the format string of line 170, \<open>CHR 0x0A\<close> the newline of line 168.
\<close>

definition transformRecord ::
  "(string \<Rightarrow> string \<Rightarrow> 'l LogLine \<times> bool) \<Rightarrow> Logger \<Rightarrow> Time \<Rightarrow> 'id Server list \<Rightarrow>
   LogStreamItem \<Rightarrow> ('id, 'l) transformer_state \<Rightarrow> ('id, 'l) transformer_state" where
  "transformRecord ParseLogLineWithPrefix logger linesNewerThan servers inp st =
     (case ParseLogLineWithPrefix '''' (Content inp @ [CHR 0x0A]) of
        (logLine, ok) \<Rightarrow>
          if \<not> ok
          then st\<lparr>tlog := tlog st @
                 [(logger, Error,
                   ''Can't parse log line: '' @ [CHR 0x22] @ Content inp @ [CHR 0x22])]\<rparr>
          else
            let logLine = logLine\<lparr>ll_OccurredAt := OccurredAt inp\<rparr> in
            if \<not> IsZero (ll_OccurredAt logLine) \<and> Before (ll_OccurredAt logLine) linesNewerThan
            then st
            else routeLogLine inp logLine servers st)"

text \<open>
  The \<^verbatim>\<open>for { select { ... } }\<close> loop over the events the goroutine observes. The
  deferred \<^verbatim>\<open>wg.Done()\<close> runs on both returns. When the observed events end the
  goroutine is blocked in \<^verbatim>\<open>select\<close> and the state is returned as it stands.
\<close>

fun transformLoop ::
  "(string \<Rightarrow> string \<Rightarrow> 'l LogLine \<times> bool) \<Rightarrow> Logger \<Rightarrow> Time \<Rightarrow> 'id Server list \<Rightarrow>
   chan_event list \<Rightarrow> ('id, 'l) transformer_state \<Rightarrow> ('id, 'l) transformer_state" where
  "transformLoop P logger linesNewerThan servers [] st = st"
| "transformLoop P logger linesNewerThan servers (CtxDone # evs) st = st\<lparr>twg := twg st - 1\<rparr>"
| "transformLoop P logger linesNewerThan servers (ChanClosed # evs) st = st\<lparr>twg := twg st - 1\<rparr>"
| "transformLoop P logger linesNewerThan servers (Recv inp # evs) st =
     transformLoop P logger linesNewerThan servers evs
       (transformRecord P logger linesNewerThan servers inp st)"

text \<open>
  \<^verbatim>\<open>setupLogTransformer\<close>: \<^verbatim>\<open>wg.Add(1)\<close>, then the goroutine, which computes the
  cutoff once from the current time \<open>now\<close> and runs the loop.
\<close>

definition setupLogTransformer ::
  "(string \<Rightarrow> string \<Rightarrow> 'l LogLine \<times> bool) \<Rightarrow> Logger \<Rightarrow> Time \<Rightarrow> 'id Server list \<Rightarrow>
   chan_event list \<Rightarrow> ('id, 'l) transformer_state \<Rightarrow> ('id, 'l) transformer_state" where
  "setupLogTransformer P logger now servers evs st =
     (let st = st\<lparr>twg := twg st + 1\<rparr>;
          linesNewerThan = Add now (- 1 * Minute)
      in transformLoop P logger linesNewerThan servers evs st)"

section \<open>Go library functions used by the adapter\<close>

text \<open>
  \<^verbatim>\<open>strings.Count\<close>, \<^verbatim>\<open>strings.SplitN\<close> and \<^verbatim>\<open>strings.HasSuffix\<close> of the Go standard
  library, the first two for a separator of one byte (the source only passes \<^verbatim>\<open>"/"\<close>)
  and a count \<open>n \<ge> 0\<close> (the source passes 4 and 2). \<^verbatim>\<open>SplitN\<close> cuts at the first
  \<open>n - 1\<close> separators and leaves the remainder unsplit in the last part.
\<close>

fun strings_Count :: "string \<Rightarrow> char \<Rightarrow> nat" where
  "strings_Count [] sep = 0"
| "strings_Count (c # s) sep = (if c = sep then 1 else 0) + strings_Count s sep"

fun genSplit :: "string \<Rightarrow> char \<Rightarrow> nat \<Rightarrow> string list" where
  "genSplit s sep 0 = [s]"
| "genSplit s sep (Suc i) =
     (if sep \<in> set s
      then takeWhile (\<lambda>c. c \<noteq> sep) s # genSplit (tl (dropWhile (\<lambda>c. c \<noteq> sep) s)) sep i
      else [s])"

definition strings_SplitN :: "string \<Rightarrow> char \<Rightarrow> nat \<Rightarrow> string list" where
  "strings_SplitN s sep n = (if n = 0 then [] else genSplit s sep (n - 1))"

definition strings_HasSuffix :: "string \<Rightarrow> string \<Rightarrow> bool" where
  "strings_HasSuffix s suffix =
     (length suffix \<le> length s \<and> drop (length s - length suffix) s = suffix)"

text \<open>Indexing a slice panics out of range; \<open>None\<close> stands for the panic.\<close>

definition index :: "'a list \<Rightarrow> nat \<Rightarrow> 'a option" where
  "index xs i = (if i < length xs then Some (xs ! i) else None)"

definition RFC3339Nano :: string where
  "RFC3339Nano = ''2006-01-02T15:04:05.999999999Z07:00''"

section \<open>The Pub/Sub adapter\<close>

record googleLogResource =
  ResourceType :: string
  Labels :: "string \<rightharpoonup> string"

record googleLogMessage =
  InsertID :: string
  LogName :: string
  ReceiveTimestamp :: string
  Resource :: googleLogResource
  Severity :: string
  TextPayload :: string
  Timestamp :: string

text \<open>
  What the adapter goroutine does, in order: log entries, calls of \<^verbatim>\<open>sub.Receive\<close>
  (numbered), acknowledgements, sends on \<^verbatim>\<open>gcpLogStream\<close>, sleeps, the wait group
  operations, and the run-time panic of an index out of range.
\<close>

datatype action =
    Log log_entry
  | CallReceive nat
  | Ack
  | Send LogStreamItem
  | Sleep Duration
  | WgAdd
  | WgDone
  | PanicIndex

text \<open>
  One run of the callback handed to \<^verbatim>\<open>sub.Receive\<close>, lines 67 to 103, on its own.
  \<^verbatim>\<open>json.Unmarshal\<close> is a parameter returning the error text or the decoded message;
  \<^verbatim>\<open>time.Parse\<close> is a parameter returning \<open>None\<close> where Go returns the zero \<^verbatim>\<open>Time{}\<close>
  and an error, which the source drops. The variable \<^verbatim>\<open>err\<close> that line 71 assigns and
  line 72 tests is the one declared at line 57, which all callbacks share: this
  definition is a run during which no other callback assigns it between the two lines.
\<close>

definition handleMessage ::
  "('d \<Rightarrow> string + googleLogMessage) \<Rightarrow> (string \<Rightarrow> string \<Rightarrow> Time option) \<Rightarrow>
   Logger \<Rightarrow> 'd \<Rightarrow> action list" where
  "handleMessage Unmarshal time_Parse logger pubsubMsg_Data =
     Ack #
     (case Unmarshal pubsubMsg_Data of
        Inl err \<Rightarrow> [Log (logger, Error, ''Error parsing JSON: '' @ err)]
      | Inr msg \<Rightarrow>
          if ResourceType (Resource msg) \<noteq> ''cloudsql_database'' \<and>
             ResourceType (Resource msg) \<noteq> ''alloydb.googleapis.com/Instance''
          then []
          else if \<not> strings_HasSuffix (LogName msg) ''postgres.log'' then []
          else
            (case Labels (Resource msg) ''resource_container'' of
               None \<Rightarrow> []
             | Some resourceContainer \<Rightarrow>
                 if strings_Count resourceContainer CHR ''/'' \<noteq> 1 then []
                 else
                   let parts = strings_SplitN resourceContainer CHR ''/'' 2 in
                   (case Labels (Resource msg) ''cluster_id'' of
                      None \<Rightarrow> []
                    | Some clusterID \<Rightarrow>
                        let t = (case time_Parse RFC3339Nano (Timestamp msg) of
                                   Some t \<Rightarrow> t | None \<Rightarrow> 0)
                        in (case index parts 1 of
                              None \<Rightarrow> [PanicIndex]
                            | Some project \<Rightarrow>
                                [Send \<lparr>GcpProjectID = project,
                                       GcpCloudSQLInstanceID = clusterID,
                                       OccurredAt = t,
                                       Content = TextPayload msg\<rparr>]))))"

text \<open>
  The error one call of \<^verbatim>\<open>sub.Receive\<close> returns, compared with \<^verbatim>\<open>context.Canceled\<close>,
  and its text as \<^verbatim>\<open>%v\<close> prints it.
\<close>

datatype recv_error = Canceled | OtherError string

fun recv_error_text :: "recv_error \<Rightarrow> string" where
  "recv_error_text Canceled = ''context canceled''"
| "recv_error_text (OtherError e) = e"

text \<open>
  The \<^verbatim>\<open>for\<close> loop of lines 65 to 110. The provider is a parameter. During the \<open>k\<close>-th
  call of \<^verbatim>\<open>sub.Receive\<close> the library runs the callback for the messages it delivers,
  concurrently; \<open>fst (Receive k)\<close> is what those callbacks did, in the order it happened,
  and \<open>snd (Receive k)\<close> is the error the call returns. The callbacks are not taken to
  run one after another: since they share \<^verbatim>\<open>err\<close>, what they do need not be a
  sequence of runs of \<open>handleMessage\<close>, and the loop does not depend on it. The loop
  need not end, so it is a partial function: \<open>None\<close> is a loop that runs forever,
  \<open>Some acts\<close> the actions up to the \<^verbatim>\<open>break\<close>, appended to those already done.
\<close>

partial_function (option) receiveLoop ::
  "Logger \<Rightarrow> (nat \<Rightarrow> action list \<times> recv_error option) \<Rightarrow> nat \<Rightarrow> action list \<Rightarrow>
   action list option" where
  "receiveLoop logger Receive k acts =
     (case snd (Receive k) of
        None \<Rightarrow>
          Some (acts @
            [Log (logger, Verbose, ''Initializing Google Pub/Sub handler''), CallReceive k] @
            fst (Receive k))
      | Some err \<Rightarrow>
          if err = Canceled
          then Some (acts @
            [Log (logger, Verbose, ''Initializing Google Pub/Sub handler''), CallReceive k] @
            fst (Receive k))
          else receiveLoop logger Receive (Suc k)
                 (acts @
                  [Log (logger, Verbose, ''Initializing Google Pub/Sub handler''), CallReceive k] @
                  fst (Receive k) @
                  [Log (logger, Error,
                     ''Failed to receive from Google PubSub, retrying in 1 minute: '' @
                     recv_error_text err),
                   Sleep (1 * Minute)]))"

declare receiveLoop.simps [code]

text \<open>The goroutine of lines 63 to 112: \<^verbatim>\<open>wg.Add(1)\<close>, the loop, \<^verbatim>\<open>wg.Done()\<close>.\<close>

definition adapterGoroutine ::
  "Logger \<Rightarrow> (nat \<Rightarrow> action list \<times> recv_error option) \<Rightarrow> action list option" where
  "adapterGoroutine logger Receive =
     map_option (\<lambda>acts. acts @ [WgDone]) (receiveLoop logger Receive 0 [WgAdd])"

section \<open>Starting the adapters\<close>

datatype ClientOption = WithCredentialsFile string

text \<open>
  The errors \<^verbatim>\<open>setupPubSubSubscriber\<close> returns, one per \<^verbatim>\<open>fmt.Errorf\<close>, and the
  run-time panic of an index out of range, which no caller recovers from.
\<close>

datatype setup_error =
    UnsupportedSubscriptionFormat string
  | FailedToCreateClient string
  | PanicIndexOutOfRange

fun Error_text :: "setup_error \<Rightarrow> string" where
  "Error_text (UnsupportedSubscriptionFormat got) =
     ''Unsupported subscription format - must be '' @ [CHR 0x22] @
     ''projects/PROJECT_NAME/subscriptions/SUBSCRIPTION_NAME'' @ [CHR 0x22] @ '', got: '' @ got"
| "Error_text (FailedToCreateClient err) = ''Failed to create Google PubSub client: '' @ err"
| "Error_text PanicIndexOutOfRange = ''runtime error: index out of range''"

text \<open>
  A started adapter goroutine: the logger and the subscription handle it captured
  (project and subscription name, client options), with the configuration of the call
  that started it.
\<close>

record 'id adapter =
  ad_config :: "'id ServerConfig"
  ad_logger :: Logger
  ad_projectID :: string
  ad_subID :: string
  ad_opts :: "ClientOption list"

text \<open>
  The state the coordinator acts on: the provider's state \<open>world\<close> (changed by
  \<^verbatim>\<open>pubsub.NewClient\<close>), the adapter goroutines started so far, the number of
  transformer goroutines started, and the log.
\<close>

record ('id, 'w) setup_state =
  world :: 'w
  adapters :: "'id adapter list"
  transformers :: nat
  slog :: "log_entry list"

text \<open>
  \<^verbatim>\<open>setupPubSubSubscriber\<close>, lines 42 to 115, in two parts: \<open>createClient\<close> is lines 50
  to 114 (the client options, the client, the subscription handle and the goroutine),
  \<open>setupPubSubSubscriber\<close> the format check and the split before it.
  \<^verbatim>\<open>pubsub.NewClient\<close> is a parameter: from the provider's state, the project and the
  options it returns its error text (or \<open>None\<close>) and the provider's new state.
\<close>

definition credentialsMsg :: "string \<Rightarrow> string" where
  "credentialsMsg file =
     (if file \<noteq> '''' then ''Using GCP credentials file located at: '' @ file
      else ''No GCP credentials file provided; assuming GKE workload identity or VM-associated service account'')"

definition createClient ::
  "('w \<Rightarrow> string \<Rightarrow> ClientOption list \<Rightarrow> string option \<times> 'w) \<Rightarrow> Logger \<Rightarrow>
   'id ServerConfig \<Rightarrow> string \<Rightarrow> string \<Rightarrow> ('id, 'w) setup_state \<Rightarrow>
   setup_error option \<times> ('id, 'w) setup_state" where
  "createClient NewClient logger config projectID subID st =
     (let opts = (if GcpCredentialsFile config \<noteq> ''''
                  then [WithCredentialsFile (GcpCredentialsFile config)] else []);
          st = st\<lparr>slog := slog st @
                 [(logger, Verbose, credentialsMsg (GcpCredentialsFile config))]\<rparr>
      in (case NewClient (world st) projectID opts of
            (Some err, w) \<Rightarrow> (Some (FailedToCreateClient err), st\<lparr>world := w\<rparr>)
          | (None, w) \<Rightarrow>
              (None, st\<lparr>world := w,
                        adapters := adapters st @
                          [\<lparr>ad_config = config, ad_logger = logger,
                            ad_projectID = projectID, ad_subID = subID,
                            ad_opts = opts\<rparr>]\<rparr>)))"

definition setupPubSubSubscriber ::
  "('w \<Rightarrow> string \<Rightarrow> ClientOption list \<Rightarrow> string option \<times> 'w) \<Rightarrow> Logger \<Rightarrow>
   'id ServerConfig \<Rightarrow> ('id, 'w) setup_state \<Rightarrow> setup_error option \<times> ('id, 'w) setup_state" where
  "setupPubSubSubscriber NewClient logger config st =
     (if strings_Count (GcpPubsubSubscription config) CHR ''/'' \<noteq> 3
      then (Some (UnsupportedSubscriptionFormat (GcpPubsubSubscription config)), st)
      else
        let idParts = strings_SplitN (GcpPubsubSubscription config) CHR ''/'' 4 in
        (case index idParts 1 of
           None \<Rightarrow> (Some PanicIndexOutOfRange, st)
         | Some projectID \<Rightarrow>
        (case index idParts 3 of
           None \<Rightarrow> (Some PanicIndexOutOfRange, st)
         | Some subID \<Rightarrow> createClient NewClient logger config projectID subID st)))"

text \<open>
  The loop of \<^verbatim>\<open>SetupLogSubscriber\<close>, lines 124 to 143, over the remaining servers, with
  the map \<^verbatim>\<open>gcpPubSubHandlers\<close>. It returns the error (if any), the map and the state.
\<close>

definition skipMsg :: "setup_error \<Rightarrow> string" where
  "skipMsg err = ''Skipping logs, could not setup log subscriber: '' @ Error_text err"

fun subscriberLoop ::
  "('w \<Rightarrow> string \<Rightarrow> ClientOption list \<Rightarrow> string option \<times> 'w) \<Rightarrow> bool \<Rightarrow> Logger \<Rightarrow>
   'id Server list \<Rightarrow> (string \<rightharpoonup> bool) \<Rightarrow> ('id, 'w) setup_state \<Rightarrow>
   setup_error option \<times> (string \<rightharpoonup> bool) \<times> ('id, 'w) setup_state" where
  "subscriberLoop NewClient TestRun logger [] gcpPubSubHandlers st =
     (None, gcpPubSubHandlers, st)"
| "subscriberLoop NewClient TestRun logger (server # servers) gcpPubSubHandlers st =
     (let prefixedLogger = WithPrefix logger (SectionName (Config server)) in
      if GcpPubsubSubscription (Config server) \<noteq> '''' then
        (case gcpPubSubHandlers (GcpPubsubSubscription (Config server)) of
           Some _ \<Rightarrow> subscriberLoop NewClient TestRun logger servers gcpPubSubHandlers st
         | None \<Rightarrow>
             (case setupPubSubSubscriber NewClient prefixedLogger (Config server) st of
                (Some err, st') \<Rightarrow>
                  if err = PanicIndexOutOfRange then (Some err, gcpPubSubHandlers, st')
                  else if TestRun then (Some err, gcpPubSubHandlers, st')
                  else subscriberLoop NewClient TestRun logger servers gcpPubSubHandlers
                         (st'\<lparr>slog := slog st' @ [(prefixedLogger, Warning, skipMsg err)]\<rparr>)
              | (None, st') \<Rightarrow>
                  subscriberLoop NewClient TestRun logger servers
                    (gcpPubSubHandlers(GcpPubsubSubscription (Config server) \<mapsto> True)) st'))
      else subscriberLoop NewClient TestRun logger servers gcpPubSubHandlers st)"

text \<open>
  \<^verbatim>\<open>SetupLogSubscriber\<close>: the transformer is started first, then the loop runs from the
  empty map; the map is local and only the error is returned.
\<close>

definition SetupLogSubscriber ::
  "('w \<Rightarrow> string \<Rightarrow> ClientOption list \<Rightarrow> string option \<times> 'w) \<Rightarrow> bool \<Rightarrow> Logger \<Rightarrow>
   'id Server list \<Rightarrow> ('id, 'w) setup_state \<Rightarrow> setup_error option \<times> ('id, 'w) setup_state" where
  "SetupLogSubscriber NewClient TestRun logger servers st =
     (case subscriberLoop NewClient TestRun logger servers Map.empty
             (st\<lparr>transformers := transformers st + 1\<rparr>) of
        (err, _, st') \<Rightarrow> (err, st'))"

section \<open>The actions of the retried rounds\<close>

text \<open>
  What the loop has done after \<open>n\<close> rounds, from call \<open>k\<close> on, each of which ended in an
  error other than cancellation: per round the handler is initialised, \<^verbatim>\<open>Receive\<close> is
  called and its callbacks run, then the error is logged and the goroutine sleeps for
  one minute (60000000000 nanoseconds).
\<close>

fun retriedRounds ::
  "Logger \<Rightarrow> (nat \<Rightarrow> action list \<times> recv_error option) \<Rightarrow> nat \<Rightarrow> nat \<Rightarrow> action list" where
  "retriedRounds logger Receive k 0 = []"
| "retriedRounds logger Receive k (Suc n) =
     [Log (logger, Verbose, ''Initializing Google Pub/Sub handler''), CallReceive k] @
     fst (Receive k) @
     (case snd (Receive k) of
        Some (OtherError e) \<Rightarrow>
          [Log (logger, Error,
              ''Failed to receive from Google PubSub, retrying in 1 minute: '' @ e),
           Sleep 60000000000]
      | _ \<Rightarrow> []) @
     retriedRounds logger Receive (Suc k) n"

section \<open>The format the error message names\<close>

text \<open>
  The error message of line 44 names the form
  \<^verbatim>\<open>projects/PROJECT_NAME/subscriptions/SUBSCRIPTION_NAME\<close>. \<open>subscriptionPath\<close> builds an
  identifier of that form from its two names; \<open>isSubscriptionPath\<close> decides whether an
  identifier has it, for names without a slash.
\<close>

definition subscriptionPath :: "string \<Rightarrow> string \<Rightarrow> string" where
  "subscriptionPath project name = ''projects/'' @ project @ ''/subscriptions/'' @ name"

definition isSubscriptionPath :: "string \<Rightarrow> bool" where
  "isSubscriptionPath s =
     (case genSplit s CHR ''/'' (length s) of
        [a, project, b, name] \<Rightarrow> a = ''projects'' \<and> b = ''subscriptions''
      | _ \<Rightarrow> False)"

section \<open>The invariant of the coordinator's loop\<close>

text \<open>
  Among the adapters started since the loop began (those after the first \<open>n\<close>), each
  identifier in the map has exactly one and each identifier not in the map has none.
\<close>

definition handlers_inv :: "nat \<Rightarrow> (string \<rightharpoonup> bool) \<Rightarrow> ('id, 'w) setup_state \<Rightarrow> bool" where
  "handlers_inv n h st \<longleftrightarrow>
     n \<le> length (adapters st) \<and>
     (\<forall>sub. length (filter (\<lambda>a. GcpPubsubSubscription (ad_config a) = sub)
                     (drop n (adapters st))) = (if h sub = None then 0 else 1))"

section \<open>Example inputs\<close>

text \<open>
  A line parser that rejects the empty line and infers the timestamp 7 from any other
  text, and one that accepts only lines beginning with \<^verbatim>\<open>LOG:\<close>; a provider whose first
  client creation fails and whose later ones succeed, its state being the number of
  calls so far; servers, a decoder and a timestamp parser; a provider whose first two
  calls of \<^verbatim>\<open>Receive\<close> fail and whose third delivers one message and is cancelled.
\<close>

definition exampleParse :: "string \<Rightarrow> string \<Rightarrow> string LogLine \<times> bool" where
  "exampleParse prefix line = (\<lparr>ll_OccurredAt = 7, ll_Fields = line\<rparr>, line \<noteq> [CHR 0x0A])"

definition exampleLogParse :: "string \<Rightarrow> string \<Rightarrow> string LogLine \<times> bool" where
  "exampleLogParse prefix line = (\<lparr>ll_OccurredAt = 7, ll_Fields = line\<rparr>, take 4 line = ''LOG:'')"

definition flakyClient :: "nat \<Rightarrow> string \<Rightarrow> ClientOption list \<Rightarrow> string option \<times> nat" where
  "flakyClient w projectID opts = (if w = 0 then Some ''unavailable'' else None, Suc w)"

definition exampleServer :: "string \<Rightarrow> string \<Rightarrow> string \<Rightarrow> nat \<Rightarrow> nat Server" where
  "exampleServer sub project inst ident =
     \<lparr>Config = \<lparr>SectionName = ''db'', GcpPubsubSubscription = sub, GcpCredentialsFile = '''',
                cfg_GcpProjectID = project, cfg_GcpCloudSQLInstanceID = inst,
                Identifier = ident\<rparr>\<rparr>"

definition exampleState :: "nat \<Rightarrow> (nat, nat) setup_state" where
  "exampleState w = \<lparr>world = w, adapters = [], transformers = 0, slog = []\<rparr>"

definition exampleMessage :: "string \<Rightarrow> googleLogMessage" where
  "exampleMessage ts =
     \<lparr>InsertID = ''1'', LogName = ''projects/p1/logs/cloudsql.googleapis.com%2Fpostgres.log'',
      ReceiveTimestamp = '''',
      Resource = \<lparr>ResourceType = ''cloudsql_database'',
                  Labels = [''resource_container'' \<mapsto> ''projects/p1'', ''cluster_id'' \<mapsto> ''i1'']\<rparr>,
      Severity = ''INFO'', TextPayload = ''LOG:  checkpoint starting'', Timestamp = ts\<rparr>"

definition exampleTimeParse :: "string \<Rightarrow> string \<Rightarrow> Time option" where
  "exampleTimeParse layout v = (if v = ''0001-01-01T00:01:40Z'' then Some 100000000000 else None)"

definition exampleReceive :: "nat \<Rightarrow> action list \<times> recv_error option" where
  "exampleReceive k =
     (if k < 2 then ([], Some (OtherError ''unavailable''))
      else (handleMessage Inr exampleTimeParse BaseLogger (exampleMessage ''0001-01-01T00:01:40Z''),
            Some Canceled))"

definition exampleItem :: "Time \<Rightarrow> string \<Rightarrow> LogStreamItem" where
  "exampleItem ts content =
     \<lparr>GcpProjectID = ''p1'', GcpCloudSQLInstanceID = ''i1'', OccurredAt = ts, Content = content\<rparr>"

definition exampleServers :: "nat Server list" where
  "exampleServers =
     [exampleServer '''' ''p1'' ''i1'' 1, exampleServer '''' ''p1'' ''i2'' 2,
      exampleServer '''' ''p1'' ''i1'' 3]"

definition exampleOut :: "(nat, string) transformer_state" where
  "exampleOut = \<lparr>out = [], tlog = [], twg = 0\<rparr>"

section \<open>Properties of the stream transformer\<close>

text \<open>The routing loop appends one item per matching server, in the order of the servers.\<close>

lemma routeLogLine_eq:
  "routeLogLine inp logLine servers st =
     st\<lparr>out := out st @
        map (\<lambda>server. \<lparr>psi_Identifier = Identifier (Config server), psi_LogLine = logLine\<rparr>)
          (filter (\<lambda>server. GcpProjectID inp = cfg_GcpProjectID (Config server) \<and>
                     GcpCloudSQLInstanceID inp = cfg_GcpCloudSQLInstanceID (Config server))
             servers)\<rparr>"
  by (induction servers arbitrary: st) simp_all

text \<open>What one received record adds to the output channel.\<close>

lemma transformRecord_out:
  "out (transformRecord P logger cutoff servers inp st) =
     out st @
       (case P '''' (Content inp @ [CHR 0x0A]) of
          (logLine, ok) \<Rightarrow>
            if ok \<and> (IsZero (OccurredAt inp) \<or> \<not> Before (OccurredAt inp) cutoff)
            then map (\<lambda>server. \<lparr>psi_Identifier = Identifier (Config server),
                                 psi_LogLine = logLine\<lparr>ll_OccurredAt := OccurredAt inp\<rparr>\<rparr>)
                   (filter (\<lambda>server. GcpProjectID inp = cfg_GcpProjectID (Config server) \<and>
                       GcpCloudSQLInstanceID inp = cfg_GcpCloudSQLInstanceID (Config server))
                      servers)
            else [])"
  by (auto simp: transformRecord_def routeLogLine_eq Let_def split: prod.splits)

text \<open>The output of the loop depends on the state only through the items already sent.\<close>

lemma transformLoop_out_cong:
  "out st = out st' \<Longrightarrow>
   out (transformLoop P logger cutoff servers evs st) =
   out (transformLoop P logger cutoff servers evs st')"
proof (induction evs arbitrary: st st')
  case Nil
  then show ?case by simp
next
  case (Cons ev evs)
  show ?case
  proof (cases ev)
    case (Recv inp)
    have "out (transformRecord P logger cutoff servers inp st) =
          out (transformRecord P logger cutoff servers inp st')"
      using Cons.prems by (simp add: transformRecord_out)
    then have "out (transformLoop P logger cutoff servers evs
                     (transformRecord P logger cutoff servers inp st)) =
               out (transformLoop P logger cutoff servers evs
                     (transformRecord P logger cutoff servers inp st'))"
      by (rule Cons.IH)
    then show ?thesis
      unfolding Recv by simp
  next
    case CtxDone
    then show ?thesis using Cons.prems by simp
  next
    case ChanClosed
    then show ?thesis using Cons.prems by simp
  qed
qed

lemma stale_out:
  "\<not> IsZero (OccurredAt inp) \<Longrightarrow> Before (OccurredAt inp) cutoff \<Longrightarrow>
   out (transformRecord P logger cutoff servers inp st) = out st"
  by (simp add: transformRecord_out split: prod.splits)

lemma transformLoop_drop_stale:
  assumes "\<not> IsZero (OccurredAt inp)" and "Before (OccurredAt inp) cutoff"
  shows "out (transformLoop P logger cutoff servers (pre @ Recv inp # post) st) =
         out (transformLoop P logger cutoff servers (pre @ post) st)"
proof (induction pre arbitrary: st)
  case Nil
  show ?case
    using transformLoop_out_cong [OF stale_out [OF assms]] by simp
next
  case (Cons ev pre)
  show ?case
  proof (cases ev)
    case (Recv inp')
    show ?thesis
      unfolding Recv append_Cons transformLoop.simps by (rule Cons.IH)
  qed simp_all
qed

text \<open>
  Claim C1. A record that the line parser accepts and that passes the freshness filter
  is sent to the output channel once for every configured server whose project and
  instance identifiers both equal the record's, with that server's identifier and the
  parsed line (its timestamp set from the record): \<open>k\<close> matching servers give exactly
  \<open>k\<close> items, in the order of the servers, and no matching server gives none.
\<close>

theorem routed_to_every_matching_target:
  assumes "P '''' (Content inp @ [CHR 0x0A]) = (logLine, True)"
      and "IsZero (OccurredAt inp) \<or> \<not> Before (OccurredAt inp) cutoff"
  shows "transformRecord P logger cutoff servers inp st =
           st\<lparr>out := out st @
              map (\<lambda>server. \<lparr>psi_Identifier = Identifier (Config server),
                              psi_LogLine = logLine\<lparr>ll_OccurredAt := OccurredAt inp\<rparr>\<rparr>)
                (filter (\<lambda>server. GcpProjectID inp = cfg_GcpProjectID (Config server) \<and>
                           GcpCloudSQLInstanceID inp = cfg_GcpCloudSQLInstanceID (Config server))
                   servers)\<rparr> \<and>
         length (out (transformRecord P logger cutoff servers inp st)) =
           length (out st) +
           length (filter (\<lambda>server. GcpProjectID inp = cfg_GcpProjectID (Config server) \<and>
                             GcpCloudSQLInstanceID inp = cfg_GcpCloudSQLInstanceID (Config server))
                     servers)"
  using assms by (auto simp: transformRecord_def routeLogLine_eq Let_def)

theorem routed_to_every_matching_target_witness:
  "exampleParse '''' (Content (exampleItem 50000000000 ''x'') @ [CHR 0x0A]) =
     (\<lparr>ll_OccurredAt = 7, ll_Fields = ''x'' @ [CHR 0x0A]\<rparr>, True) \<and>
   (IsZero (OccurredAt (exampleItem 50000000000 ''x'')) \<or>
    \<not> Before (OccurredAt (exampleItem 50000000000 ''x'')) 40000000000) \<and>
   out (transformRecord exampleParse BaseLogger 40000000000 exampleServers
          (exampleItem 50000000000 ''x'') exampleOut) =
     [\<lparr>psi_Identifier = 1,
       psi_LogLine = \<lparr>ll_OccurredAt = 50000000000, ll_Fields = ''x'' @ [CHR 0x0A]\<rparr>\<rparr>,
      \<lparr>psi_Identifier = 3,
       psi_LogLine = \<lparr>ll_OccurredAt = 50000000000, ll_Fields = ''x'' @ [CHR 0x0A]\<rparr>\<rparr>]"
proof -
  have h1: "exampleParse '''' (Content (exampleItem 50000000000 ''x'') @ [CHR 0x0A]) =
     (\<lparr>ll_OccurredAt = 7, ll_Fields = ''x'' @ [CHR 0x0A]\<rparr>, True)"
    by (simp add: exampleParse_def exampleItem_def)
  have h2: "IsZero (OccurredAt (exampleItem 50000000000 ''x'')) \<or>
    \<not> Before (OccurredAt (exampleItem 50000000000 ''x'')) 40000000000"
    by (simp add: exampleItem_def Before_def)
  show ?thesis
    using routed_to_every_matching_target [where P = exampleParse and
        inp = "exampleItem 50000000000 ''x''" and cutoff = 40000000000 and logger = BaseLogger and
        servers = exampleServers and st = exampleOut, OF h1 h2] h1 h2
    by (simp add: exampleServers_def exampleServer_def exampleItem_def exampleOut_def)
qed

text \<open>
  Claim C2. A record whose timestamp is not zero and lies strictly before the cutoff,
  which the transformer computes once at its start as one minute before the current
  time, adds nothing to the output channel; the items sent during a whole run are the
  same as when the record had never been received.
\<close>

theorem stale_record_discarded:
  assumes "OccurredAt inp \<noteq> 0" and "OccurredAt inp < now - 60000000000"
  shows "out (transformRecord P logger (Add now (- 1 * Minute)) servers inp st) = out st \<and>
         out (setupLogTransformer P logger now servers (pre @ Recv inp # post) st) =
         out (setupLogTransformer P logger now servers (pre @ post) st)"
proof -
  have z: "\<not> IsZero (OccurredAt inp)"
    using assms(1) by (simp add: IsZero_def)
  have b: "Before (OccurredAt inp) (Add now (- 1 * Minute))"
    using assms(2) by (simp add: Before_def Add_def Minute_def)
  have "out (transformRecord P logger (Add now (- 1 * Minute)) servers inp st) = out st"
    by (rule stale_out [OF z b])
  moreover have "out (setupLogTransformer P logger now servers (pre @ Recv inp # post) st) =
         out (setupLogTransformer P logger now servers (pre @ post) st)"
    unfolding setupLogTransformer_def Let_def by (rule transformLoop_drop_stale [OF z b])
  ultimately show ?thesis by (rule conjI)
qed

theorem stale_record_discarded_witness:
  "OccurredAt (exampleItem 30000000000 ''old'') \<noteq> 0 \<and>
   OccurredAt (exampleItem 30000000000 ''old'') < 100000000000 - 60000000000 \<and>
   out (setupLogTransformer exampleParse BaseLogger 100000000000 exampleServers
          [Recv (exampleItem 30000000000 ''old''), Recv (exampleItem 50000000000 ''x''), CtxDone]
          exampleOut) =
   out (setupLogTransformer exampleParse BaseLogger 100000000000 exampleServers
          [Recv (exampleItem 50000000000 ''x''), CtxDone] exampleOut)"
proof -
  have h1: "OccurredAt (exampleItem 30000000000 ''old'') \<noteq> 0"
    by (simp add: exampleItem_def)
  have h2: "OccurredAt (exampleItem 30000000000 ''old'') < 100000000000 - 60000000000"
    by (simp add: exampleItem_def)
  show ?thesis
    using stale_record_discarded [where P = exampleParse and
        inp = "exampleItem 30000000000 ''old''" and now = 100000000000 and logger = BaseLogger and
        servers = exampleServers and st = exampleOut and pre = "[]" and
        post = "[Recv (exampleItem 50000000000 ''x''), CtxDone]", OF h1 h2] h1 h2
    by simp
qed

text \<open>
  Claim C3. A record whose timestamp is the zero value, and which the line parser
  accepts, is never dropped by the freshness filter: whatever the cutoff, it goes to the
  routing loop.
\<close>

theorem unknown_timestamp_not_filtered:
  assumes "P '''' (Content inp @ [CHR 0x0A]) = (logLine, True)"
      and "OccurredAt inp = 0"
  shows "transformRecord P logger cutoff servers inp st =
           routeLogLine inp (logLine\<lparr>ll_OccurredAt := 0\<rparr>) servers st"
  using assms by (simp add: transformRecord_def IsZero_def Let_def)

theorem unknown_timestamp_not_filtered_witness:
  "exampleParse '''' (Content (exampleItem 0 ''z'') @ [CHR 0x0A]) =
     (\<lparr>ll_OccurredAt = 7, ll_Fields = ''z'' @ [CHR 0x0A]\<rparr>, True) \<and>
   OccurredAt (exampleItem 0 ''z'') = 0 \<and>
   out (transformRecord exampleParse BaseLogger 40000000000 exampleServers
          (exampleItem 0 ''z'') exampleOut) =
     [\<lparr>psi_Identifier = 1,
       psi_LogLine = \<lparr>ll_OccurredAt = 0, ll_Fields = ''z'' @ [CHR 0x0A]\<rparr>\<rparr>,
      \<lparr>psi_Identifier = 3,
       psi_LogLine = \<lparr>ll_OccurredAt = 0, ll_Fields = ''z'' @ [CHR 0x0A]\<rparr>\<rparr>]"
proof -
  have h1: "exampleParse '''' (Content (exampleItem 0 ''z'') @ [CHR 0x0A]) =
     (\<lparr>ll_OccurredAt = 7, ll_Fields = ''z'' @ [CHR 0x0A]\<rparr>, True)"
    by (simp add: exampleParse_def exampleItem_def)
  have h2: "OccurredAt (exampleItem 0 ''z'') = 0"
    by (simp add: exampleItem_def)
  show ?thesis
    using unknown_timestamp_not_filtered [where P = exampleParse and
        inp = "exampleItem 0 ''z''" and cutoff = 40000000000 and logger = BaseLogger and
        servers = exampleServers and st = exampleOut, OF h1 h2] h1 h2
    by (simp add: exampleServers_def exampleServer_def exampleItem_def exampleOut_def)
qed

text \<open>
  Claim C9. When the line parser, called with the empty prefix and the content followed
  by a newline, rejects a record, the transformer logs the error
  \<^verbatim>\<open>Can't parse log line: "CONTENT"\<close> with the record's raw content, sends nothing to the
  output channel, and goes on with the next event.
\<close>

theorem unparseable_record_discarded:
  assumes "snd (P '''' (Content inp @ [CHR 0x0A])) = False"
  shows "transformRecord P logger cutoff servers inp st =
           st\<lparr>tlog := tlog st @
              [(logger, Error,
                ''Can't parse log line: '' @ [CHR 0x22] @ Content inp @ [CHR 0x22])]\<rparr> \<and>
         out (transformRecord P logger cutoff servers inp st) = out st \<and>
         transformLoop P logger cutoff servers (Recv inp # evs) st =
           transformLoop P logger cutoff servers evs
             (st\<lparr>tlog := tlog st @
                [(logger, Error,
                  ''Can't parse log line: '' @ [CHR 0x22] @ Content inp @ [CHR 0x22])]\<rparr>)"
  using assms by (auto simp: transformRecord_def split: prod.splits)

theorem unparseable_record_discarded_witness:
  "snd (exampleLogParse '''' (Content (exampleItem 50000000000 ''garbage'') @ [CHR 0x0A])) = False \<and>
   transformLoop exampleLogParse BaseLogger 40000000000 exampleServers
     [Recv (exampleItem 50000000000 ''garbage''), Recv (exampleItem 50000000000 ''LOG: x'')]
     exampleOut =
   \<lparr>out =
      [\<lparr>psi_Identifier = 1,
        psi_LogLine = \<lparr>ll_OccurredAt = 50000000000, ll_Fields = ''LOG: x'' @ [CHR 0x0A]\<rparr>\<rparr>,
       \<lparr>psi_Identifier = 3,
        psi_LogLine = \<lparr>ll_OccurredAt = 50000000000, ll_Fields = ''LOG: x'' @ [CHR 0x0A]\<rparr>\<rparr>],
    tlog = [(BaseLogger, Error,
             ''Can't parse log line: '' @ [CHR 0x22] @ ''garbage'' @ [CHR 0x22])],
    twg = 0\<rparr>"
proof -
  have h: "snd (exampleLogParse '''' (Content (exampleItem 50000000000 ''garbage'') @ [CHR 0x0A])) =
      False"
    by (simp add: exampleLogParse_def exampleItem_def)
  show ?thesis
    using unparseable_record_discarded [where P = exampleLogParse and
        inp = "exampleItem 50000000000 ''garbage''" and cutoff = 40000000000 and
        logger = BaseLogger and servers = exampleServers and st = exampleOut and
        evs = "[Recv (exampleItem 50000000000 ''LOG: x'')]", OF h] h
    by (simp add: transformRecord_def exampleLogParse_def exampleServers_def exampleServer_def
          exampleItem_def exampleOut_def IsZero_def Before_def Let_def)
qed

section \<open>Properties of the message handler\<close>

lemma handleMessage_Send:
  assumes "Unmarshal d = Inr msg"
      and "Send inp \<in> set (handleMessage Unmarshal time_Parse alogger d)"
  shows "OccurredAt inp = (case time_Parse RFC3339Nano (Timestamp msg) of Some t \<Rightarrow> t | None \<Rightarrow> 0)"
  using assms
  by (auto simp: handleMessage_def Let_def split: if_splits option.splits)

text \<open>
  Claim C5. The record the handler sends for a decoded message carries the result of
  \<^verbatim>\<open>time.Parse\<close> with the layout \<^verbatim>\<open>RFC3339Nano\<close> on the message's timestamp field,
  or zero when that fails; every item the transformer sends for this record has that
  timestamp, whatever timestamp the line parser put into the parsed line.
\<close>

theorem occurrence_timestamp_from_message:
  assumes "Unmarshal d = Inr msg"
      and "Send inp \<in> set (handleMessage Unmarshal time_Parse alogger d)"
  shows "OccurredAt inp =
           (case time_Parse RFC3339Nano (Timestamp msg) of Some t \<Rightarrow> t | None \<Rightarrow> 0) \<and>
         (\<forall>item \<in> set (drop (length (out st))
                          (out (transformRecord P logger cutoff servers inp st))).
            ll_OccurredAt (psi_LogLine item) =
              (case time_Parse RFC3339Nano (Timestamp msg) of Some t \<Rightarrow> t | None \<Rightarrow> 0))"
proof -
  have ts: "OccurredAt inp =
      (case time_Parse RFC3339Nano (Timestamp msg) of Some t \<Rightarrow> t | None \<Rightarrow> 0)"
    using assms by (rule handleMessage_Send)
  have "\<forall>item \<in> set (drop (length (out st))
                          (out (transformRecord P logger cutoff servers inp st))).
            ll_OccurredAt (psi_LogLine item) = OccurredAt inp"
    by (auto simp: transformRecord_out split: prod.splits)
  with ts show ?thesis by simp
qed

theorem occurrence_timestamp_from_message_witness:
  "(Inr :: googleLogMessage \<Rightarrow> string + googleLogMessage) (exampleMessage ''0001-01-01T00:01:40Z'') =
     Inr (exampleMessage ''0001-01-01T00:01:40Z'') \<and>
   Send (exampleItem 100000000000 ''LOG:  checkpoint starting'') \<in>
     set (handleMessage Inr exampleTimeParse BaseLogger (exampleMessage ''0001-01-01T00:01:40Z'')) \<and>
   map (\<lambda>item. ll_OccurredAt (psi_LogLine item))
     (out (transformRecord exampleParse BaseLogger 40000000000 exampleServers
             (exampleItem 100000000000 ''LOG:  checkpoint starting'') exampleOut)) =
     [100000000000, 100000000000]"
proof -
  have h1: "(Inr :: googleLogMessage \<Rightarrow> string + googleLogMessage)
      (exampleMessage ''0001-01-01T00:01:40Z'') = Inr (exampleMessage ''0001-01-01T00:01:40Z'')"
    by simp
  have h2: "Send (exampleItem 100000000000 ''LOG:  checkpoint starting'') \<in>
     set (handleMessage Inr exampleTimeParse BaseLogger (exampleMessage ''0001-01-01T00:01:40Z''))"
    by (simp add: handleMessage_def exampleMessage_def exampleTimeParse_def exampleItem_def
          strings_HasSuffix_def strings_SplitN_def index_def Let_def)
  have h3: "length (out (transformRecord exampleParse BaseLogger 40000000000 exampleServers
                  (exampleItem 100000000000 ''LOG:  checkpoint starting'') exampleOut)) = 2"
    by (simp add: transformRecord_def exampleParse_def exampleServers_def exampleServer_def
          exampleItem_def exampleOut_def IsZero_def Before_def Let_def)
  then obtain a b where ab: "out (transformRecord exampleParse BaseLogger 40000000000
      exampleServers (exampleItem 100000000000 ''LOG:  checkpoint starting'') exampleOut) = [a, b]"
    by (auto simp: length_Suc_conv numeral_2_eq_2)
  show ?thesis
    using occurrence_timestamp_from_message [where Unmarshal = Inr and
        d = "exampleMessage ''0001-01-01T00:01:40Z''" and
        msg = "exampleMessage ''0001-01-01T00:01:40Z''" and time_Parse = exampleTimeParse and
        alogger = BaseLogger and inp = "exampleItem 100000000000 ''LOG:  checkpoint starting''" and
        st = exampleOut and P = exampleParse and logger = BaseLogger and cutoff = 40000000000 and
        servers = exampleServers, OF h1 h2] h1 h2 ab
    by (simp add: exampleOut_def exampleMessage_def exampleTimeParse_def)
qed

section \<open>Properties of the string functions\<close>

lemma strings_Count_append [simp]:
  "strings_Count (s @ t) sep = strings_Count s sep + strings_Count t sep"
  by (induction s) simp_all

lemma strings_Count_0: "strings_Count s sep = 0 \<longleftrightarrow> sep \<notin> set s"
  by (induction s) auto

lemma strings_Count_le_length: "strings_Count s sep \<le> length s"
  by (induction s) simp_all

lemma split_at_first:
  assumes "sep \<in> set s"
  shows "s = takeWhile (\<lambda>c. c \<noteq> sep) s @ sep # tl (dropWhile (\<lambda>c. c \<noteq> sep) s)"
proof -
  have "dropWhile (\<lambda>c. c \<noteq> sep) s \<noteq> []"
    using assms by (simp add: dropWhile_eq_Nil_conv)
  moreover have "hd (dropWhile (\<lambda>c. c \<noteq> sep) s) = sep"
    using assms hd_dropWhile [of "\<lambda>c. c \<noteq> sep" s] by (auto simp: dropWhile_eq_Nil_conv)
  ultimately have "dropWhile (\<lambda>c. c \<noteq> sep) s = sep # tl (dropWhile (\<lambda>c. c \<noteq> sep) s)"
    by (cases "dropWhile (\<lambda>c. c \<noteq> sep) s") simp_all
  then show ?thesis
    using takeWhile_dropWhile_id [of "\<lambda>c. c \<noteq> sep" s] by simp
qed

lemma takeWhile_no_sep: "sep \<notin> set (takeWhile (\<lambda>c. c \<noteq> sep) s)"
  by (induction s) auto

lemma strings_Count_rest:
  assumes "sep \<in> set s"
  shows "strings_Count s sep = Suc (strings_Count (tl (dropWhile (\<lambda>c. c \<noteq> sep) s)) sep)"
proof -
  have "strings_Count s sep =
        strings_Count (takeWhile (\<lambda>c. c \<noteq> sep) s @ sep # tl (dropWhile (\<lambda>c. c \<noteq> sep) s)) sep"
    using split_at_first [OF assms] by simp
  also have "\<dots> = Suc (strings_Count (tl (dropWhile (\<lambda>c. c \<noteq> sep) s)) sep)"
    using takeWhile_no_sep [of sep s] by (simp add: strings_Count_0 [symmetric])
  finally show ?thesis .
qed

text \<open>With exactly \<open>i\<close> separators, splitting into \<open>i + 1\<close> parts gives the parts between them.\<close>

lemma genSplit_exact:
  "strings_Count s sep = i \<Longrightarrow>
   length (genSplit s sep i) = Suc i \<and>
   (\<forall>p \<in> set (genSplit s sep i). sep \<notin> set p) \<and>
   s = foldr (\<lambda>p r. p @ sep # r) (butlast (genSplit s sep i)) (last (genSplit s sep i))"
proof (induction i arbitrary: s)
  case 0
  then show ?case by (simp add: strings_Count_0)
next
  case (Suc i)
  have mem: "sep \<in> set s"
    using Suc.prems strings_Count_0 [of s sep] by auto
  let ?rest = "tl (dropWhile (\<lambda>c. c \<noteq> sep) s)"
  have "strings_Count ?rest sep = i"
    using Suc.prems strings_Count_rest [OF mem] by simp
  from Suc.IH [OF this] have ih: "length (genSplit ?rest sep i) = Suc i"
    "\<forall>p \<in> set (genSplit ?rest sep i). sep \<notin> set p"
    "?rest = foldr (\<lambda>p r. p @ sep # r) (butlast (genSplit ?rest sep i)) (last (genSplit ?rest sep i))"
    by blast+
  have ne: "genSplit ?rest sep i \<noteq> []" using ih(1) by auto
  show ?case
    using mem ih(1,2) ne split_at_first [OF mem] ih(3) takeWhile_no_sep [of sep s]
    by auto
qed

lemma genSplit_enough:
  "strings_Count s sep \<le> i \<Longrightarrow> genSplit s sep i = genSplit s sep (strings_Count s sep)"
proof (induction i arbitrary: s)
  case 0
  then show ?case by simp
next
  case (Suc i)
  show ?case
  proof (cases "sep \<in> set s")
    case False
    then have "strings_Count s sep = 0" by (simp add: strings_Count_0)
    with False show ?thesis by simp
  next
    case True
    let ?rest = "tl (dropWhile (\<lambda>c. c \<noteq> sep) s)"
    have cnt: "strings_Count s sep = Suc (strings_Count ?rest sep)"
      by (rule strings_Count_rest [OF True])
    then have "strings_Count ?rest sep \<le> i" using Suc.prems by simp
    from Suc.IH [OF this] show ?thesis
      using True by (simp add: cnt)
  qed
qed

lemma SplitN_4:
  assumes "strings_Count s sep = 3"
  shows "\<exists>a p b n. strings_SplitN s sep 4 = [a, p, b, n] \<and>
           s = a @ sep # p @ sep # b @ sep # n \<and>
           sep \<notin> set a \<and> sep \<notin> set p \<and> sep \<notin> set b \<and> sep \<notin> set n"
proof -
  from genSplit_exact [OF assms] have
    len: "length (genSplit s sep 3) = 4" and
    nosep: "\<forall>p \<in> set (genSplit s sep 3). sep \<notin> set p" and
    join: "s = foldr (\<lambda>p r. p @ sep # r) (butlast (genSplit s sep 3)) (last (genSplit s sep 3))"
    by simp_all
  from len obtain a p b n where parts: "genSplit s sep 3 = [a, p, b, n]"
    by (auto simp: length_Suc_conv numeral_eq_Suc)
  show ?thesis
    using parts nosep join by (simp add: strings_SplitN_def)
qed

lemma strings_Count_subscriptionPath:
  "CHR ''/'' \<notin> set project \<Longrightarrow> CHR ''/'' \<notin> set name \<Longrightarrow>
   strings_Count (subscriptionPath project name) CHR ''/'' = 3"
  by (simp add: subscriptionPath_def strings_Count_0 [THEN iffD2])

lemma strings_SplitN_subscriptionPath:
  "CHR ''/'' \<notin> set project \<Longrightarrow> CHR ''/'' \<notin> set name \<Longrightarrow>
   strings_SplitN (subscriptionPath project name) CHR ''/'' 4 =
     [''projects'', project, ''subscriptions'', name]"
  by (simp add: subscriptionPath_def strings_SplitN_def numeral_3_eq_3
        takeWhile_append dropWhile_append)

text \<open>\<open>isSubscriptionPath\<close> holds of exactly the identifiers \<open>subscriptionPath\<close> builds.\<close>

lemma isSubscriptionPath_iff:
  "isSubscriptionPath s \<longleftrightarrow>
   (\<exists>project name. CHR ''/'' \<notin> set project \<and> CHR ''/'' \<notin> set name \<and>
      s = subscriptionPath project name)"
proof
  assume "isSubscriptionPath s"
  then obtain project name where
    parts: "genSplit s CHR ''/'' (length s) = [''projects'', project, ''subscriptions'', name]"
    by (auto simp: isSubscriptionPath_def split: list.splits)
  have full: "genSplit s CHR ''/'' (length s) = genSplit s CHR ''/'' (strings_Count s CHR ''/'')"
    by (rule genSplit_enough [OF strings_Count_le_length])
  from genSplit_exact [OF refl, of s "CHR ''/''"] have
    len: "length (genSplit s CHR ''/'' (strings_Count s CHR ''/'')) = Suc (strings_Count s CHR ''/'')"
    and nosep: "\<forall>p \<in> set (genSplit s CHR ''/'' (strings_Count s CHR ''/'')). CHR ''/'' \<notin> set p"
    and join: "s = foldr (\<lambda>p r. p @ CHR ''/'' # r)
        (butlast (genSplit s CHR ''/'' (strings_Count s CHR ''/'')))
        (last (genSplit s CHR ''/'' (strings_Count s CHR ''/'')))"
    by blast+
  have "CHR ''/'' \<notin> set project" "CHR ''/'' \<notin> set name"
    using nosep parts full by simp_all
  moreover have "s = subscriptionPath project name"
    using join parts full by (simp add: subscriptionPath_def)
  ultimately show "\<exists>project name. CHR ''/'' \<notin> set project \<and> CHR ''/'' \<notin> set name \<and>
      s = subscriptionPath project name"
    by blast
next
  assume "\<exists>project name. CHR ''/'' \<notin> set project \<and> CHR ''/'' \<notin> set name \<and>
      s = subscriptionPath project name"
  then obtain project name where
    ns: "CHR ''/'' \<notin> set project" "CHR ''/'' \<notin> set name" and s: "s = subscriptionPath project name"
    by blast
  have cnt: "strings_Count s CHR ''/'' = 3"
    unfolding s using ns by (rule strings_Count_subscriptionPath)
  have "genSplit s CHR ''/'' (length s) = genSplit s CHR ''/'' 3"
    using genSplit_enough [OF strings_Count_le_length, of s "CHR ''/''"] cnt by simp
  also have "\<dots> = [''projects'', project, ''subscriptions'', name]"
    using strings_SplitN_subscriptionPath [OF ns] by (simp add: s strings_SplitN_def)
  finally show "isSubscriptionPath s"
    by (simp add: isSubscriptionPath_def)
qed

section \<open>Properties of adapter setup\<close>

lemma createClient_adapters:
  assumes "createClient NewClient logger config projectID subID st = (r, st')"
  shows "(r = None \<longrightarrow> (\<exists>a. adapters st' = adapters st @ [a] \<and> ad_config a = config \<and>
                                ad_projectID a = projectID \<and> ad_subID a = subID)) \<and>
         (r \<noteq> None \<longrightarrow> adapters st' = adapters st) \<and> r \<noteq> Some PanicIndexOutOfRange"
  using assms
  by (auto simp: createClient_def Let_def split: prod.splits option.splits)

lemma setupPubSubSubscriber_passes:
  assumes "strings_Count (GcpPubsubSubscription config) CHR ''/'' = 3"
  shows "\<exists>a p b n. strings_SplitN (GcpPubsubSubscription config) CHR ''/'' 4 = [a, p, b, n] \<and>
           GcpPubsubSubscription config = a @ CHR ''/'' # p @ CHR ''/'' # b @ CHR ''/'' # n \<and>
           CHR ''/'' \<notin> set a \<and> CHR ''/'' \<notin> set p \<and> CHR ''/'' \<notin> set b \<and> CHR ''/'' \<notin> set n \<and>
           setupPubSubSubscriber NewClient logger config st =
             createClient NewClient logger config p n st"
proof -
  from SplitN_4 [OF assms] obtain a p b n where
    parts: "strings_SplitN (GcpPubsubSubscription config) CHR ''/'' 4 = [a, p, b, n]" and
    rest: "GcpPubsubSubscription config = a @ CHR ''/'' # p @ CHR ''/'' # b @ CHR ''/'' # n"
      "CHR ''/'' \<notin> set a" "CHR ''/'' \<notin> set p" "CHR ''/'' \<notin> set b" "CHR ''/'' \<notin> set n"
    by blast
  have "setupPubSubSubscriber NewClient logger config st =
          createClient NewClient logger config p n st"
    using assms parts by (simp add: setupPubSubSubscriber_def index_def)
  with parts rest show ?thesis by blast
qed

text \<open>
  A successful call starts exactly one adapter, for the configuration it was given; a
  failed call starts none; the index panic does not occur.
\<close>

lemma setupPubSubSubscriber_adapters:
  assumes "setupPubSubSubscriber NewClient logger config st = (r, st')"
  shows "(r = None \<longrightarrow> (\<exists>a. adapters st' = adapters st @ [a] \<and> ad_config a = config)) \<and>
         (r \<noteq> None \<longrightarrow> adapters st' = adapters st) \<and> r \<noteq> Some PanicIndexOutOfRange"
proof (cases "strings_Count (GcpPubsubSubscription config) CHR ''/'' = 3")
  case True
  from setupPubSubSubscriber_passes [OF True, of NewClient logger st] obtain p n where
    "setupPubSubSubscriber NewClient logger config st = createClient NewClient logger config p n st"
    by blast
  with assms have "createClient NewClient logger config p n st = (r, st')" by simp
  from createClient_adapters [OF this] show ?thesis by blast
next
  case False
  then show ?thesis using assms by (auto simp: setupPubSubSubscriber_def)
qed

text \<open>The example provider and servers, evaluated.\<close>

lemma example_setup_ok:
  "world st \<noteq> 0 \<Longrightarrow>
   setupPubSubSubscriber flakyClient lg
     (Config (exampleServer ''projects/p/subscriptions/s'' pr inst n)) st =
   (None, st\<lparr>slog := slog st @ [(lg, Verbose, credentialsMsg '''')],
            world := Suc (world st),
            adapters := adapters st @
              [\<lparr>ad_config = Config (exampleServer ''projects/p/subscriptions/s'' pr inst n),
                ad_logger = lg, ad_projectID = ''p'', ad_subID = ''s'', ad_opts = []\<rparr>]\<rparr>)"
  by (simp add: setupPubSubSubscriber_def createClient_def strings_SplitN_def index_def
        flakyClient_def exampleServer_def numeral_3_eq_3 Let_def)

lemma example_setup_unavailable:
  "world st = 0 \<Longrightarrow>
   setupPubSubSubscriber flakyClient lg
     (Config (exampleServer ''projects/p/subscriptions/s'' pr inst n)) st =
   (Some (FailedToCreateClient ''unavailable''),
    st\<lparr>slog := slog st @ [(lg, Verbose, credentialsMsg '''')], world := Suc 0\<rparr>)"
  by (simp add: setupPubSubSubscriber_def createClient_def strings_SplitN_def index_def
        flakyClient_def exampleServer_def numeral_3_eq_3 Let_def)


lemma example_server_fields:
  "GcpPubsubSubscription (Config (exampleServer sub pr inst n)) = sub"
  "SectionName (Config (exampleServer sub pr inst n)) = ''db''"
  by (simp_all add: exampleServer_def)

text \<open>
  What the guard of line 43 does: an identifier that does not contain exactly three
  slashes fails with the format error before any client is created, the state
  unchanged; an identifier with exactly three slashes splits into four slash-free
  segments and the client is created for the second as project and the fourth as
  subscription name. An identifier \<^verbatim>\<open>projects/P/subscriptions/S\<close> with slash-free \<open>P\<close> and
  \<open>S\<close> passes with \<open>P\<close> as project and \<open>S\<close> as subscription name.
\<close>

lemma format_check_counts_slashes:
  "(strings_Count (GcpPubsubSubscription config) CHR ''/'' \<noteq> 3 \<longrightarrow>
      setupPubSubSubscriber NewClient logger config st =
        (Some (UnsupportedSubscriptionFormat (GcpPubsubSubscription config)), st)) \<and>
   (strings_Count (GcpPubsubSubscription config) CHR ''/'' = 3 \<longrightarrow>
      (\<exists>a p b n.
         GcpPubsubSubscription config = a @ CHR ''/'' # p @ CHR ''/'' # b @ CHR ''/'' # n \<and>
         CHR ''/'' \<notin> set a \<and> CHR ''/'' \<notin> set p \<and> CHR ''/'' \<notin> set b \<and> CHR ''/'' \<notin> set n \<and>
         setupPubSubSubscriber NewClient logger config st =
           createClient NewClient logger config p n st)) \<and>
   (CHR ''/'' \<notin> set project \<and> CHR ''/'' \<notin> set name \<and>
    GcpPubsubSubscription config = subscriptionPath project name \<longrightarrow>
      setupPubSubSubscriber NewClient logger config st =
        createClient NewClient logger config project name st)"
proof (intro conjI impI)
  assume "strings_Count (GcpPubsubSubscription config) CHR ''/'' \<noteq> 3"
  then show "setupPubSubSubscriber NewClient logger config st =
        (Some (UnsupportedSubscriptionFormat (GcpPubsubSubscription config)), st)"
    by (simp add: setupPubSubSubscriber_def)
next
  assume "strings_Count (GcpPubsubSubscription config) CHR ''/'' = 3"
  from setupPubSubSubscriber_passes [OF this, of NewClient logger st]
  show "\<exists>a p b n.
         GcpPubsubSubscription config = a @ CHR ''/'' # p @ CHR ''/'' # b @ CHR ''/'' # n \<and>
         CHR ''/'' \<notin> set a \<and> CHR ''/'' \<notin> set p \<and> CHR ''/'' \<notin> set b \<and> CHR ''/'' \<notin> set n \<and>
         setupPubSubSubscriber NewClient logger config st =
           createClient NewClient logger config p n st"
    by blast
next
  assume a: "CHR ''/'' \<notin> set project \<and> CHR ''/'' \<notin> set name \<and>
    GcpPubsubSubscription config = subscriptionPath project name"
  then show "setupPubSubSubscriber NewClient logger config st =
        createClient NewClient logger config project name st"
    using strings_Count_subscriptionPath [of project name]
      strings_SplitN_subscriptionPath [of project name]
    by (simp add: setupPubSubSubscriber_def index_def)
qed

text \<open>
  Claim C7. Setup is to fail with the format error for every identifier that is not of
  the form \<^verbatim>\<open>projects/PROJECT_NAME/subscriptions/SUBSCRIPTION_NAME\<close>, as the error message
  of line 44 says. The code does not: the guard of line 43 only counts slashes.
  \<^verbatim>\<open>a/b/c/d\<close> and \<^verbatim>\<open>projects/p/topics/t\<close> are not of that form, yet setup succeeds for
  them and starts adapters for project \<^verbatim>\<open>b\<close>, subscription \<^verbatim>\<open>d\<close> and for project \<^verbatim>\<open>p\<close>,
  subscription \<^verbatim>\<open>t\<close>.
\<close>

theorem format_check_accepts_other_forms:
  "\<not> isSubscriptionPath ''a/b/c/d'' \<and>
   fst (setupPubSubSubscriber flakyClient BaseLogger
          (Config (exampleServer ''a/b/c/d'' ''p1'' ''i1'' 1)) (exampleState 1)) = None \<and>
   map (\<lambda>a. (ad_projectID a, ad_subID a))
     (adapters (snd (setupPubSubSubscriber flakyClient BaseLogger
        (Config (exampleServer ''a/b/c/d'' ''p1'' ''i1'' 1)) (exampleState 1)))) =
     [(''b'', ''d'')] \<and>
   \<not> isSubscriptionPath ''projects/p/topics/t'' \<and>
   fst (setupPubSubSubscriber flakyClient BaseLogger
          (Config (exampleServer ''projects/p/topics/t'' ''p1'' ''i1'' 1)) (exampleState 1)) = None \<and>
   map (\<lambda>a. (ad_projectID a, ad_subID a))
     (adapters (snd (setupPubSubSubscriber flakyClient BaseLogger
        (Config (exampleServer ''projects/p/topics/t'' ''p1'' ''i1'' 1)) (exampleState 1)))) =
     [(''p'', ''t'')]"
  by (simp add: isSubscriptionPath_def setupPubSubSubscriber_def createClient_def
        strings_SplitN_def index_def flakyClient_def exampleServer_def exampleState_def
        numeral_3_eq_3 numeral_eq_Suc Let_def)

section \<open>Properties of the coordinator\<close>

lemma handlers_inv_log [simp]:
  "handlers_inv n h (st\<lparr>slog := l\<rparr>) = handlers_inv n h st"
  by (simp add: handlers_inv_def)

lemma handlers_inv_loop:
  assumes "handlers_inv n h st"
      and "subscriberLoop NewClient TestRun logger servers h st = (r, h', st')"
  shows "handlers_inv n h' st'"
  using assms
proof (induction servers arbitrary: h st)
  case Nil
  then show ?case by simp
next
  case (Cons server servers)
  let ?sub = "GcpPubsubSubscription (Config server)"
  let ?lg = "WithPrefix logger (SectionName (Config server))"
  show ?case
  proof (cases "?sub \<noteq> '''' \<and> h ?sub = None")
    case False
    then have "subscriberLoop NewClient TestRun logger (server # servers) h st =
               subscriberLoop NewClient TestRun logger servers h st"
      by (auto simp: Let_def split: option.splits)
    with Cons show ?thesis by simp
  next
    case True
    obtain e st1 where call: "setupPubSubSubscriber NewClient ?lg (Config server) st = (e, st1)"
      by (cases "setupPubSubSubscriber NewClient ?lg (Config server) st")
    note eff = setupPubSubSubscriber_adapters [OF call]
    show ?thesis
    proof (cases e)
      case None
      with eff obtain a where a: "adapters st1 = adapters st @ [a]" "ad_config a = Config server"
        by blast
      have inv1: "handlers_inv n (h(?sub \<mapsto> True)) st1"
        using Cons.prems(1) True a by (auto simp: handlers_inv_def)
      have "subscriberLoop NewClient TestRun logger servers (h(?sub \<mapsto> True)) st1 = (r, h', st')"
        using Cons.prems(2) True call None by (simp add: Let_def)
      from Cons.IH [OF inv1 this] show ?thesis .
    next
      case (Some err)
      with eff have same: "adapters st1 = adapters st" and np: "err \<noteq> PanicIndexOutOfRange"
        by simp_all
      have inv1: "handlers_inv n h st1"
        using Cons.prems(1) same by (simp add: handlers_inv_def)
      show ?thesis
      proof (cases TestRun)
        case True
        with Cons.prems(2) \<open>?sub \<noteq> '''' \<and> h ?sub = None\<close> call Some np
        have "h' = h" "st' = st1" by (simp_all add: Let_def)
        with inv1 show ?thesis by simp
      next
        case False
        with Cons.prems(2) \<open>?sub \<noteq> '''' \<and> h ?sub = None\<close> call Some np
        have "subscriberLoop NewClient TestRun logger servers h
                (st1\<lparr>slog := slog st1 @ [(?lg, Warning, skipMsg err)]\<rparr>) = (r, h', st')"
          by (simp add: Let_def)
        from Cons.IH [OF _ this] inv1 show ?thesis by simp
      qed
    qed
  qed
qed


text \<open>
  Claim C4. For every subscription identifier, a run of the coordinator starts at most
  one adapter, and exactly one if the identifier is in the map at the end; a server
  whose identifier is already in the map is skipped, the state unchanged; and when
  setup succeeds for a server whose identifier is not yet in the map, exactly one
  adapter is started for it and the identifier is recorded.
\<close>

theorem at_most_one_adapter_per_subscription:
  "(case subscriberLoop NewClient TestRun logger servers Map.empty st of
      (r, h', st') \<Rightarrow>
        length (filter (\<lambda>a. GcpPubsubSubscription (ad_config a) = sub)
                  (drop (length (adapters st)) (adapters st'))) =
        (if h' sub = None then 0 else 1)) \<and>
   (case SetupLogSubscriber NewClient TestRun logger servers st of
      (r, st') \<Rightarrow>
        length (filter (\<lambda>a. GcpPubsubSubscription (ad_config a) = sub)
                  (drop (length (adapters st)) (adapters st'))) \<le> 1) \<and>
   (h sub \<noteq> None \<and> GcpPubsubSubscription (Config server) = sub \<longrightarrow>
      subscriberLoop NewClient TestRun logger (server # rest) h st =
      subscriberLoop NewClient TestRun logger rest h st) \<and>
   (GcpPubsubSubscription (Config server) \<noteq> '''' \<and>
    h (GcpPubsubSubscription (Config server)) = None \<and>
    setupPubSubSubscriber NewClient (WithPrefix logger (SectionName (Config server)))
      (Config server) st = (None, st_started) \<longrightarrow>
      (\<exists>a. adapters st_started = adapters st @ [a] \<and> ad_config a = Config server) \<and>
      subscriberLoop NewClient TestRun logger (server # rest) h st =
      subscriberLoop NewClient TestRun logger rest
        (h(GcpPubsubSubscription (Config server) \<mapsto> True)) st_started)"
proof (intro conjI)
  show "GcpPubsubSubscription (Config server) \<noteq> '''' \<and>
    h (GcpPubsubSubscription (Config server)) = None \<and>
    setupPubSubSubscriber NewClient (WithPrefix logger (SectionName (Config server)))
      (Config server) st = (None, st_started) \<longrightarrow>
      (\<exists>a. adapters st_started = adapters st @ [a] \<and> ad_config a = Config server) \<and>
      subscriberLoop NewClient TestRun logger (server # rest) h st =
      subscriberLoop NewClient TestRun logger rest
        (h(GcpPubsubSubscription (Config server) \<mapsto> True)) st_started"
  proof (intro impI conjI)
    assume a: "GcpPubsubSubscription (Config server) \<noteq> '''' \<and>
      h (GcpPubsubSubscription (Config server)) = None \<and>
      setupPubSubSubscriber NewClient (WithPrefix logger (SectionName (Config server)))
        (Config server) st = (None, st_started)"
    then have call: "setupPubSubSubscriber NewClient (WithPrefix logger (SectionName (Config server)))
        (Config server) st = (None, st_started)" by simp
    from setupPubSubSubscriber_adapters [OF call]
    show "\<exists>a. adapters st_started = adapters st @ [a] \<and> ad_config a = Config server"
      by simp
    show "subscriberLoop NewClient TestRun logger (server # rest) h st =
      subscriberLoop NewClient TestRun logger rest
        (h(GcpPubsubSubscription (Config server) \<mapsto> True)) st_started"
      using a by (simp add: Let_def)
  qed
next
  have inv0: "handlers_inv (length (adapters st')) Map.empty st'" for st' :: "('a, 'b) setup_state"
    by (simp add: handlers_inv_def)
  show "case subscriberLoop NewClient TestRun logger servers Map.empty st of
      (r, h', st') \<Rightarrow>
        length (filter (\<lambda>a. GcpPubsubSubscription (ad_config a) = sub)
                  (drop (length (adapters st)) (adapters st'))) =
        (if h' sub = None then 0 else 1)"
  proof (cases "subscriberLoop NewClient TestRun logger servers Map.empty st")
    case (fields r h' st')
    from handlers_inv_loop [OF inv0 fields] show ?thesis
      using fields by (simp add: handlers_inv_def)
  qed
  show "case SetupLogSubscriber NewClient TestRun logger servers st of
      (r, st') \<Rightarrow>
        length (filter (\<lambda>a. GcpPubsubSubscription (ad_config a) = sub)
                  (drop (length (adapters st)) (adapters st'))) \<le> 1"
  proof (cases "subscriberLoop NewClient TestRun logger servers Map.empty
                  (st\<lparr>transformers := transformers st + 1\<rparr>)")
    case (fields r h' st')
    from handlers_inv_loop [OF inv0 fields] show ?thesis
      using fields by (simp add: handlers_inv_def SetupLogSubscriber_def)
  qed
  show "h sub \<noteq> None \<and> GcpPubsubSubscription (Config server) = sub \<longrightarrow>
      subscriberLoop NewClient TestRun logger (server # rest) h st =
      subscriberLoop NewClient TestRun logger rest h st"
    by (auto simp: Let_def)
qed

theorem at_most_one_adapter_per_subscription_witness:
  "[''projects/p/subscriptions/s'' \<mapsto> True] ''projects/p/subscriptions/s'' \<noteq> None \<and>
   GcpPubsubSubscription (Config (exampleServer ''projects/p/subscriptions/s'' ''p1'' ''i2'' 2)) =
     ''projects/p/subscriptions/s'' \<and>
   subscriberLoop flakyClient False BaseLogger
     [exampleServer ''projects/p/subscriptions/s'' ''p1'' ''i2'' 2]
     [''projects/p/subscriptions/s'' \<mapsto> True] (exampleState 1) =
   (None, [''projects/p/subscriptions/s'' \<mapsto> True], exampleState 1) \<and>
   length (filter (\<lambda>a. GcpPubsubSubscription (ad_config a) = ''projects/p/subscriptions/s'')
     (adapters (snd (SetupLogSubscriber flakyClient False BaseLogger
        [exampleServer ''projects/p/subscriptions/s'' ''p1'' ''i1'' 1,
         exampleServer ''projects/p/subscriptions/s'' ''p1'' ''i2'' 2] (exampleState 1))))) = 1 \<and>
   GcpPubsubSubscription (Config (exampleServer ''projects/p/subscriptions/s'' ''p1'' ''i1'' 1)) \<noteq> '''' \<and>
   (Map.empty :: string \<rightharpoonup> bool)
     (GcpPubsubSubscription (Config (exampleServer ''projects/p/subscriptions/s'' ''p1'' ''i1'' 1))) =
     None \<and>
   setupPubSubSubscriber flakyClient (WithPrefix BaseLogger ''db'')
     (Config (exampleServer ''projects/p/subscriptions/s'' ''p1'' ''i1'' 1)) (exampleState 1) =
     (None,
      \<lparr>world = 2,
       adapters = [\<lparr>ad_config = Config (exampleServer ''projects/p/subscriptions/s'' ''p1'' ''i1'' 1),
                    ad_logger = WithPrefix BaseLogger ''db'', ad_projectID = ''p'',
                    ad_subID = ''s'', ad_opts = []\<rparr>],
       transformers = 0,
       slog = [(WithPrefix BaseLogger ''db'', Verbose, credentialsMsg '''')]\<rparr>) \<and>
   subscriberLoop flakyClient False BaseLogger
     [exampleServer ''projects/p/subscriptions/s'' ''p1'' ''i1'' 1,
      exampleServer ''projects/p/subscriptions/s'' ''p1'' ''i2'' 2] Map.empty (exampleState 1) =
     (None, [''projects/p/subscriptions/s'' \<mapsto> True],
      \<lparr>world = 2,
       adapters = [\<lparr>ad_config = Config (exampleServer ''projects/p/subscriptions/s'' ''p1'' ''i1'' 1),
                    ad_logger = WithPrefix BaseLogger ''db'', ad_projectID = ''p'',
                    ad_subID = ''s'', ad_opts = []\<rparr>],
       transformers = 0,
       slog = [(WithPrefix BaseLogger ''db'', Verbose, credentialsMsg '''')]\<rparr>)"
proof -
  have run: "subscriberLoop flakyClient False BaseLogger
        [exampleServer ''projects/p/subscriptions/s'' ''p1'' ''i1'' 1,
         exampleServer ''projects/p/subscriptions/s'' ''p1'' ''i2'' 2] Map.empty
        ((exampleState 1)\<lparr>transformers := transformers (exampleState 1) + 1\<rparr>) =
     (None, [''projects/p/subscriptions/s'' \<mapsto> True],
      \<lparr>world = 2,
       adapters = [\<lparr>ad_config = Config (exampleServer ''projects/p/subscriptions/s'' ''p1'' ''i1'' 1),
                    ad_logger = WithPrefix BaseLogger ''db'', ad_projectID = ''p'',
                    ad_subID = ''s'', ad_opts = []\<rparr>],
       transformers = 1,
       slog = [(WithPrefix BaseLogger ''db'', Verbose, credentialsMsg '''')]\<rparr>)"
    by (simp add: example_setup_ok example_server_fields exampleState_def Let_def)
  have h1: "GcpPubsubSubscription
      (Config (exampleServer ''projects/p/subscriptions/s'' ''p1'' ''i1'' 1)) \<noteq> ''''"
    by (simp add: exampleServer_def)
  have h2: "(Map.empty :: string \<rightharpoonup> bool)
     (GcpPubsubSubscription (Config (exampleServer ''projects/p/subscriptions/s'' ''p1'' ''i1'' 1))) =
     None"
    by simp
  have h3: "setupPubSubSubscriber flakyClient
     (WithPrefix BaseLogger
        (SectionName (Config (exampleServer ''projects/p/subscriptions/s'' ''p1'' ''i1'' 1))))
     (Config (exampleServer ''projects/p/subscriptions/s'' ''p1'' ''i1'' 1)) (exampleState 1) =
     (None,
      \<lparr>world = 2,
       adapters = [\<lparr>ad_config = Config (exampleServer ''projects/p/subscriptions/s'' ''p1'' ''i1'' 1),
                    ad_logger = WithPrefix BaseLogger ''db'', ad_projectID = ''p'',
                    ad_subID = ''s'', ad_opts = []\<rparr>],
       transformers = 0,
       slog = [(WithPrefix BaseLogger ''db'', Verbose, credentialsMsg '''')]\<rparr>)"
    by (simp add: example_setup_ok example_server_fields exampleState_def)
  have skipped: "subscriberLoop flakyClient False BaseLogger
     [exampleServer ''projects/p/subscriptions/s'' ''p1'' ''i2'' 2]
     [''projects/p/subscriptions/s'' \<mapsto> True] st =
     (None, [''projects/p/subscriptions/s'' \<mapsto> True], st)" for st :: "(nat, nat) setup_state"
    using at_most_one_adapter_per_subscription [where NewClient = flakyClient and
        TestRun = False and logger = BaseLogger and st = st and
        sub = "''projects/p/subscriptions/s''" and
        h = "[''projects/p/subscriptions/s'' \<mapsto> True]" and
        server = "exampleServer ''projects/p/subscriptions/s'' ''p1'' ''i2'' 2" and rest = "[]",
        THEN conjunct2, THEN conjunct2, THEN conjunct1]
    by (simp add: example_server_fields)
  have started: "subscriberLoop flakyClient False BaseLogger
     [exampleServer ''projects/p/subscriptions/s'' ''p1'' ''i1'' 1,
      exampleServer ''projects/p/subscriptions/s'' ''p1'' ''i2'' 2] Map.empty (exampleState 1) =
     (None, [''projects/p/subscriptions/s'' \<mapsto> True],
      \<lparr>world = 2,
       adapters = [\<lparr>ad_config = Config (exampleServer ''projects/p/subscriptions/s'' ''p1'' ''i1'' 1),
                    ad_logger = WithPrefix BaseLogger ''db'', ad_projectID = ''p'',
                    ad_subID = ''s'', ad_opts = []\<rparr>],
       transformers = 0,
       slog = [(WithPrefix BaseLogger ''db'', Verbose, credentialsMsg '''')]\<rparr>)"
    using at_most_one_adapter_per_subscription [where NewClient = flakyClient and
        TestRun = False and logger = BaseLogger and st = "exampleState 1" and h = Map.empty and
        server = "exampleServer ''projects/p/subscriptions/s'' ''p1'' ''i1'' 1" and
        rest = "[exampleServer ''projects/p/subscriptions/s'' ''p1'' ''i2'' 2]" and
        st_started = "\<lparr>world = 2,
          adapters = [\<lparr>ad_config = Config (exampleServer ''projects/p/subscriptions/s'' ''p1'' ''i1'' 1),
                       ad_logger = WithPrefix BaseLogger ''db'', ad_projectID = ''p'',
                       ad_subID = ''s'', ad_opts = []\<rparr>],
          transformers = 0,
          slog = [(WithPrefix BaseLogger ''db'', Verbose, credentialsMsg '''')]\<rparr>",
        THEN conjunct2, THEN conjunct2, THEN conjunct2] h1 h2 h3
    by (simp add: example_server_fields skipped)
  have counted: "length (filter (\<lambda>a. GcpPubsubSubscription (ad_config a) = ''projects/p/subscriptions/s'')
     (adapters (snd (SetupLogSubscriber flakyClient False BaseLogger
        [exampleServer ''projects/p/subscriptions/s'' ''p1'' ''i1'' 1,
         exampleServer ''projects/p/subscriptions/s'' ''p1'' ''i2'' 2] (exampleState 1))))) = 1"
    using run by (simp add: SetupLogSubscriber_def example_server_fields)
  have h3': "setupPubSubSubscriber flakyClient (WithPrefix BaseLogger ''db'')
     (Config (exampleServer ''projects/p/subscriptions/s'' ''p1'' ''i1'' 1)) (exampleState 1) =
     (None,
      \<lparr>world = 2,
       adapters = [\<lparr>ad_config = Config (exampleServer ''projects/p/subscriptions/s'' ''p1'' ''i1'' 1),
                    ad_logger = WithPrefix BaseLogger ''db'', ad_projectID = ''p'',
                    ad_subID = ''s'', ad_opts = []\<rparr>],
       transformers = 0,
       slog = [(WithPrefix BaseLogger ''db'', Verbose, credentialsMsg '''')]\<rparr>)"
    using h3 by (simp add: example_server_fields)
  have k1: "[''projects/p/subscriptions/s'' \<mapsto> True] ''projects/p/subscriptions/s'' \<noteq> None"
    by simp
  have k2: "GcpPubsubSubscription
      (Config (exampleServer ''projects/p/subscriptions/s'' ''p1'' ''i2'' 2)) =
     ''projects/p/subscriptions/s''"
    by (simp add: exampleServer_def)
  from k1 k2 skipped [of "exampleState 1"] counted h1 h2 h3' started show ?thesis
    by blast
qed



text \<open>
  Claim C10. The identifiers in the map at the end of a run are exactly those of the
  adapters the run started, so an identifier is recorded only by a successful setup.
  Without \<^verbatim>\<open>TestRun\<close>, when setup fails for a server and the next server has the same
  identifier, setup is called again for that server, and only its success records the
  identifier.
\<close>

theorem recorded_only_after_success:
  "(case subscriberLoop NewClient TestRun logger servers Map.empty st of
      (r, h', st') \<Rightarrow>
        dom h' = (\<lambda>a. GcpPubsubSubscription (ad_config a)) `
                   set (drop (length (adapters st)) (adapters st'))) \<and>
   (GcpPubsubSubscription (Config first) \<noteq> '''' \<and>
    GcpPubsubSubscription (Config later) = GcpPubsubSubscription (Config first) \<and>
    h (GcpPubsubSubscription (Config first)) = None \<and>
    setupPubSubSubscriber NewClient (WithPrefix logger (SectionName (Config first)))
      (Config first) st = (Some err, st_failed) \<longrightarrow>
    subscriberLoop NewClient False logger (first # later # rest) h st =
      (case setupPubSubSubscriber NewClient (WithPrefix logger (SectionName (Config later)))
              (Config later)
              (st_failed\<lparr>slog := slog st_failed @
                 [(WithPrefix logger (SectionName (Config first)), Warning, skipMsg err)]\<rparr>) of
         (Some err2, st2) \<Rightarrow>
           subscriberLoop NewClient False logger rest h
             (st2\<lparr>slog := slog st2 @
                [(WithPrefix logger (SectionName (Config later)), Warning, skipMsg err2)]\<rparr>)
       | (None, st2) \<Rightarrow>
           subscriberLoop NewClient False logger rest
             (h(GcpPubsubSubscription (Config first) \<mapsto> True)) st2))"
proof (intro conjI impI)
  have inv0: "handlers_inv (length (adapters st)) Map.empty st"
    by (simp add: handlers_inv_def)
  show "case subscriberLoop NewClient TestRun logger servers Map.empty st of
      (r, h', st') \<Rightarrow>
        dom h' = (\<lambda>a. GcpPubsubSubscription (ad_config a)) `
                   set (drop (length (adapters st)) (adapters st'))"
  proof (cases "subscriberLoop NewClient TestRun logger servers Map.empty st")
    case (fields r h' st')
    from handlers_inv_loop [OF inv0 fields]
    have cnt: "length (filter (\<lambda>a. GcpPubsubSubscription (ad_config a) = sub)
                 (drop (length (adapters st)) (adapters st'))) =
               (if h' sub = None then 0 else 1)" for sub
      by (simp add: handlers_inv_def)
    have "sub \<in> dom h' \<longleftrightarrow>
          sub \<in> (\<lambda>a. GcpPubsubSubscription (ad_config a)) `
                   set (drop (length (adapters st)) (adapters st'))" for sub
    proof -
      have "sub \<in> (\<lambda>a. GcpPubsubSubscription (ad_config a)) `
                   set (drop (length (adapters st)) (adapters st')) \<longleftrightarrow>
            filter (\<lambda>a. GcpPubsubSubscription (ad_config a) = sub)
                 (drop (length (adapters st)) (adapters st')) \<noteq> []"
        by (auto simp: filter_empty_conv)
      also have "\<dots> \<longleftrightarrow> h' sub \<noteq> None"
        using cnt [of sub] by (auto split: if_splits)
      finally show ?thesis by auto
    qed
    then show ?thesis using fields by auto
  qed
next
  assume a: "GcpPubsubSubscription (Config first) \<noteq> '''' \<and>
    GcpPubsubSubscription (Config later) = GcpPubsubSubscription (Config first) \<and>
    h (GcpPubsubSubscription (Config first)) = None \<and>
    setupPubSubSubscriber NewClient (WithPrefix logger (SectionName (Config first)))
      (Config first) st = (Some err, st_failed)"
  then have call: "setupPubSubSubscriber NewClient (WithPrefix logger (SectionName (Config first)))
      (Config first) st = (Some err, st_failed)" by simp
  from setupPubSubSubscriber_adapters [OF call] have np: "err \<noteq> PanicIndexOutOfRange" by simp
  let ?warned = "st_failed\<lparr>slog := slog st_failed @
                 [(WithPrefix logger (SectionName (Config first)), Warning, skipMsg err)]\<rparr>"
  have first: "subscriberLoop NewClient False logger (first # later # rest) h st =
        subscriberLoop NewClient False logger (later # rest) h ?warned"
    using a np by (simp add: Let_def)
  obtain e2 st2 where call2: "setupPubSubSubscriber NewClient
        (WithPrefix logger (SectionName (Config later))) (Config later) ?warned = (e2, st2)"
    by (cases "setupPubSubSubscriber NewClient
        (WithPrefix logger (SectionName (Config later))) (Config later) ?warned")
  from setupPubSubSubscriber_adapters [OF call2] have np2: "e2 \<noteq> Some PanicIndexOutOfRange"
    by simp
  show "subscriberLoop NewClient False logger (first # later # rest) h st =
      (case setupPubSubSubscriber NewClient (WithPrefix logger (SectionName (Config later)))
              (Config later) ?warned of
         (Some err2, st2) \<Rightarrow>
           subscriberLoop NewClient False logger rest h
             (st2\<lparr>slog := slog st2 @
                [(WithPrefix logger (SectionName (Config later)), Warning, skipMsg err2)]\<rparr>)
       | (None, st2) \<Rightarrow>
           subscriberLoop NewClient False logger rest
             (h(GcpPubsubSubscription (Config first) \<mapsto> True)) st2)"
    unfolding first using a call2 np2 by (auto simp: Let_def split: option.splits)
qed

theorem recorded_only_after_success_witness:
  "GcpPubsubSubscription (Config (exampleServer ''projects/p/subscriptions/s'' ''p1'' ''i1'' 1)) \<noteq> '''' \<and>
   GcpPubsubSubscription (Config (exampleServer ''projects/p/subscriptions/s'' ''p1'' ''i2'' 2)) =
     GcpPubsubSubscription (Config (exampleServer ''projects/p/subscriptions/s'' ''p1'' ''i1'' 1)) \<and>
   setupPubSubSubscriber flakyClient (WithPrefix BaseLogger ''db'')
     (Config (exampleServer ''projects/p/subscriptions/s'' ''p1'' ''i1'' 1)) (exampleState 0) =
     (Some (FailedToCreateClient ''unavailable''),
      \<lparr>world = 1, adapters = [], transformers = 0,
       slog = [(WithPrefix BaseLogger ''db'', Verbose, credentialsMsg '''')]\<rparr>) \<and>
   subscriberLoop flakyClient False BaseLogger
     [exampleServer ''projects/p/subscriptions/s'' ''p1'' ''i1'' 1,
      exampleServer ''projects/p/subscriptions/s'' ''p1'' ''i2'' 2] Map.empty (exampleState 0) =
     (None, [''projects/p/subscriptions/s'' \<mapsto> True],
      \<lparr>world = 2,
       adapters = [\<lparr>ad_config = Config (exampleServer ''projects/p/subscriptions/s'' ''p1'' ''i2'' 2),
                    ad_logger = WithPrefix BaseLogger ''db'', ad_projectID = ''p'',
                    ad_subID = ''s'', ad_opts = []\<rparr>],
       transformers = 0,
       slog = [(WithPrefix BaseLogger ''db'', Verbose, credentialsMsg ''''),
               (WithPrefix BaseLogger ''db'', Warning,
                skipMsg (FailedToCreateClient ''unavailable'')),
               (WithPrefix BaseLogger ''db'', Verbose, credentialsMsg '''')]\<rparr>)"
proof -
  have h1: "GcpPubsubSubscription
      (Config (exampleServer ''projects/p/subscriptions/s'' ''p1'' ''i1'' 1)) \<noteq> ''''"
    by (simp add: exampleServer_def)
  have h2: "GcpPubsubSubscription (Config (exampleServer ''projects/p/subscriptions/s'' ''p1'' ''i2'' 2)) =
     GcpPubsubSubscription (Config (exampleServer ''projects/p/subscriptions/s'' ''p1'' ''i1'' 1))"
    by (simp add: exampleServer_def)
  have h3: "(Map.empty :: string \<rightharpoonup> bool)
     (GcpPubsubSubscription (Config (exampleServer ''projects/p/subscriptions/s'' ''p1'' ''i1'' 1))) = None"
    by simp
  have h4: "setupPubSubSubscriber flakyClient
     (WithPrefix BaseLogger
        (SectionName (Config (exampleServer ''projects/p/subscriptions/s'' ''p1'' ''i1'' 1))))
     (Config (exampleServer ''projects/p/subscriptions/s'' ''p1'' ''i1'' 1)) (exampleState 0) =
     (Some (FailedToCreateClient ''unavailable''),
      \<lparr>world = 1, adapters = [], transformers = 0,
       slog = [(WithPrefix BaseLogger ''db'', Verbose, credentialsMsg '''')]\<rparr>)"
    by (simp add: example_setup_unavailable example_server_fields exampleState_def)
  show ?thesis
    using recorded_only_after_success [where NewClient = flakyClient and logger = BaseLogger and
        TestRun = False and servers = "[]" and
        first = "exampleServer ''projects/p/subscriptions/s'' ''p1'' ''i1'' 1" and
        later = "exampleServer ''projects/p/subscriptions/s'' ''p1'' ''i2'' 2" and
        h = Map.empty and st = "exampleState 0" and err = "FailedToCreateClient ''unavailable''" and
        st_failed = "\<lparr>world = 1, adapters = [], transformers = 0,
               slog = [(WithPrefix BaseLogger ''db'', Verbose, credentialsMsg '''')]\<rparr>" and
        rest = "[]"]
      h1 h2 h3 h4
    by (simp add: example_setup_ok example_server_fields)
qed

section \<open>Properties of the receive loop\<close>

lemma index_resource_container:
  assumes "strings_Count rc CHR ''/'' = 1"
  shows "\<exists>p. index (strings_SplitN rc CHR ''/'' 2) 1 = Some p"
proof -
  have "length (genSplit rc CHR ''/'' 1) = 2"
    using genSplit_exact [THEN conjunct1, of rc "CHR ''/''" 1] assms by simp
  then show ?thesis
    by (simp add: strings_SplitN_def index_def)
qed

text \<open>The handler's index into the split resource container is always in range.\<close>

lemma handleMessage_no_panic:
  "PanicIndex \<notin> set (handleMessage Unmarshal time_Parse logger d)"
proof (cases "Unmarshal d")
  case (Inl err)
  then show ?thesis by (simp add: handleMessage_def)
next
  case (Inr msg)
  show ?thesis
  proof (cases "Labels (Resource msg) ''resource_container''")
    case None
    with Inr show ?thesis by (simp add: handleMessage_def)
  next
    case (Some rc)
    show ?thesis
    proof (cases "strings_Count rc CHR ''/'' = 1")
      case True
      from index_resource_container [OF True] obtain p where
        "index (strings_SplitN rc CHR ''/'' 2) 1 = Some p" ..
      with Inr Some True show ?thesis
        by (simp add: handleMessage_def Let_def)
    next
      case False
      with Inr Some show ?thesis by (simp add: handleMessage_def)
    qed
  qed
qed

lemma receiveLoop_stop:
  "snd (Receive k) = None \<or> snd (Receive k) = Some Canceled \<Longrightarrow>
   receiveLoop logger Receive k acts =
     Some (acts @
       [Log (logger, Verbose, ''Initializing Google Pub/Sub handler''), CallReceive k] @
       fst (Receive k))"
  by (subst receiveLoop.simps) auto

lemma receiveLoop_retry:
  "snd (Receive k) = Some (OtherError e) \<Longrightarrow>
   receiveLoop logger Receive k acts =
     receiveLoop logger Receive (Suc k)
       (acts @
        [Log (logger, Verbose, ''Initializing Google Pub/Sub handler''), CallReceive k] @
        fst (Receive k) @
        [Log (logger, Error,
            ''Failed to receive from Google PubSub, retrying in 1 minute: '' @ e),
         Sleep 60000000000])"
  by (subst receiveLoop.simps) (simp add: Minute_def)

lemma retry_cases:
  "r \<noteq> None \<and> r \<noteq> Some Canceled \<longleftrightarrow> (\<exists>e. r = Some (OtherError e))"
proof (cases r)
  case None
  then show ?thesis by simp
next
  case (Some err)
  then show ?thesis by (cases err) simp_all
qed

lemma receiveLoop_unroll:
  "(\<forall>i<n. snd (Receive (k + i)) \<noteq> None \<and> snd (Receive (k + i)) \<noteq> Some Canceled) \<Longrightarrow>
   receiveLoop logger Receive k acts =
   receiveLoop logger Receive (k + n) (acts @ retriedRounds logger Receive k n)"
proof (induction n arbitrary: k acts)
  case 0
  show ?case by simp
next
  case (Suc n)
  have "snd (Receive k) \<noteq> None \<and> snd (Receive k) \<noteq> Some Canceled"
    using Suc.prems [rule_format, of 0] by simp
  then obtain e where err: "snd (Receive k) = Some (OtherError e)"
    unfolding retry_cases by blast
  have later: "\<forall>i<n. snd (Receive (Suc k + i)) \<noteq> None \<and> snd (Receive (Suc k + i)) \<noteq> Some Canceled"
    using Suc.prems by (metis Suc_less_eq add_Suc_shift)
  have "receiveLoop logger Receive k acts =
        receiveLoop logger Receive (Suc k)
          (acts @
           [Log (logger, Verbose, ''Initializing Google Pub/Sub handler''), CallReceive k] @
           fst (Receive k) @
           [Log (logger, Error,
               ''Failed to receive from Google PubSub, retrying in 1 minute: '' @ e),
            Sleep 60000000000])"
    using err by (rule receiveLoop_retry)
  also have "\<dots> = receiveLoop logger Receive (Suc k + n)
          ((acts @
            [Log (logger, Verbose, ''Initializing Google Pub/Sub handler''), CallReceive k] @
            fst (Receive k) @
            [Log (logger, Error,
                ''Failed to receive from Google PubSub, retrying in 1 minute: '' @ e),
             Sleep 60000000000]) @
           retriedRounds logger Receive (Suc k) n)"
    using later by (rule Suc.IH)
  finally show ?case
    using err by simp
qed

text \<open>If the loop returns, some call of \<^verbatim>\<open>Receive\<close> returned no error or cancellation.\<close>

lemma receiveLoop_returns_stop:
  assumes "receiveLoop logger Receive k acts = Some y"
  shows "\<exists>j\<ge>k. snd (Receive j) = None \<or> snd (Receive j) = Some Canceled"
proof (rule receiveLoop.raw_induct
    [where P = "\<lambda>lg R k acts y. \<exists>j\<ge>k. snd (R j) = None \<or> snd (R j) = Some Canceled",
     OF _ assms])
  fix loop :: "Logger \<Rightarrow> (nat \<Rightarrow> action list \<times> recv_error option) \<Rightarrow> nat \<Rightarrow> action list \<Rightarrow>
      action list option"
    and lg R k acts y
  assume IH: "\<And>lg R k acts y. loop lg R k acts = Some y \<Longrightarrow>
      \<exists>j\<ge>k. snd (R j) = None \<or> snd (R j) = Some Canceled"
    and body: "(case snd (R k) of
        None \<Rightarrow>
          Some (acts @
            [Log (lg, Verbose, ''Initializing Google Pub/Sub handler''), CallReceive k] @
            fst (R k))
      | Some err \<Rightarrow>
          if err = Canceled
          then Some (acts @
            [Log (lg, Verbose, ''Initializing Google Pub/Sub handler''), CallReceive k] @
            fst (R k))
          else loop lg R (Suc k)
                 (acts @
                  [Log (lg, Verbose, ''Initializing Google Pub/Sub handler''), CallReceive k] @
                  fst (R k) @
                  [Log (lg, Error,
                     ''Failed to receive from Google PubSub, retrying in 1 minute: '' @
                     recv_error_text err),
                   Sleep (1 * Minute)])) = Some y"
  show "\<exists>j\<ge>k. snd (R j) = None \<or> snd (R j) = Some Canceled"
  proof (cases "snd (R k) = None \<or> snd (R k) = Some Canceled")
    case True
    then show ?thesis by blast
  next
    case False
    then obtain err where err: "snd (R k) = Some err" "err \<noteq> Canceled"
      by auto
    have "\<exists>acts'. loop lg R (Suc k) acts' = Some y"
      using body err by auto
    then obtain acts' where "loop lg R (Suc k) acts' = Some y" ..
    then have "\<exists>j\<ge>Suc k. snd (R j) = None \<or> snd (R j) = Some Canceled"
      by (rule IH)
    then obtain j where "Suc k \<le> j" "snd (R j) = None \<or> snd (R j) = Some Canceled"
      by blast
    then have "k \<le> j \<and> (snd (R j) = None \<or> snd (R j) = Some Canceled)"
      by simp
    then show ?thesis by blast
  qed
qed

text \<open>
  Claim C8. When a call of \<^verbatim>\<open>Receive\<close> returns an error other than cancellation, the
  loop logs the error \<^verbatim>\<open>Failed to receive from Google PubSub, retrying in 1 minute:\<close>
  followed by the error's text, sleeps one minute and calls \<^verbatim>\<open>Receive\<close> again; after
  \<open>n\<close> such calls it has done so \<open>n\<close> times and is about to make the next call. When
  that call returns no error or cancellation the goroutine ends with \<^verbatim>\<open>wg.Done()\<close>,
  that last round logging no retry and not sleeping. If every call returns an error
  other than cancellation the goroutine never ends.
\<close>

theorem receive_loop_retries_until_cancelled:
  "(snd (Receive k) = Some (OtherError e) \<longrightarrow>
      receiveLoop logger Receive k acts =
      receiveLoop logger Receive (Suc k)
        (acts @
         [Log (logger, Verbose, ''Initializing Google Pub/Sub handler''), CallReceive k] @
         fst (Receive k) @
         [Log (logger, Error,
             ''Failed to receive from Google PubSub, retrying in 1 minute: '' @ e),
          Sleep 60000000000])) \<and>
   ((\<forall>i<n. snd (Receive i) \<noteq> None \<and> snd (Receive i) \<noteq> Some Canceled) \<longrightarrow>
      receiveLoop logger Receive 0 acts =
      receiveLoop logger Receive n (acts @ retriedRounds logger Receive 0 n)) \<and>
   ((\<forall>i<n. snd (Receive i) \<noteq> None \<and> snd (Receive i) \<noteq> Some Canceled) \<and>
    (snd (Receive n) = None \<or> snd (Receive n) = Some Canceled) \<longrightarrow>
      adapterGoroutine logger Receive =
        Some ([WgAdd] @ retriedRounds logger Receive 0 n @
              [Log (logger, Verbose, ''Initializing Google Pub/Sub handler''), CallReceive n] @
              fst (Receive n) @ [WgDone])) \<and>
   ((\<forall>i. snd (Receive i) \<noteq> None \<and> snd (Receive i) \<noteq> Some Canceled) \<longrightarrow>
      adapterGoroutine logger Receive = None)"
proof (intro conjI impI)
  assume "snd (Receive k) = Some (OtherError e)"
  then show "receiveLoop logger Receive k acts =
      receiveLoop logger Receive (Suc k)
        (acts @
         [Log (logger, Verbose, ''Initializing Google Pub/Sub handler''), CallReceive k] @
         fst (Receive k) @
         [Log (logger, Error,
             ''Failed to receive from Google PubSub, retrying in 1 minute: '' @ e),
          Sleep 60000000000])"
    by (rule receiveLoop_retry)
next
  assume "\<forall>i<n. snd (Receive i) \<noteq> None \<and> snd (Receive i) \<noteq> Some Canceled"
  then show "receiveLoop logger Receive 0 acts =
      receiveLoop logger Receive n (acts @ retriedRounds logger Receive 0 n)"
    using receiveLoop_unroll [of n Receive 0 logger acts] by simp
next
  assume a: "(\<forall>i<n. snd (Receive i) \<noteq> None \<and> snd (Receive i) \<noteq> Some Canceled) \<and>
    (snd (Receive n) = None \<or> snd (Receive n) = Some Canceled)"
  then have "receiveLoop logger Receive 0 [WgAdd] =
      receiveLoop logger Receive n ([WgAdd] @ retriedRounds logger Receive 0 n)"
    using receiveLoop_unroll [of n Receive 0 logger "[WgAdd]"] by simp
  also have "\<dots> = Some (([WgAdd] @ retriedRounds logger Receive 0 n) @
        [Log (logger, Verbose, ''Initializing Google Pub/Sub handler''), CallReceive n] @
        fst (Receive n))"
    using a by (intro receiveLoop_stop) blast
  finally show "adapterGoroutine logger Receive =
        Some ([WgAdd] @ retriedRounds logger Receive 0 n @
              [Log (logger, Verbose, ''Initializing Google Pub/Sub handler''), CallReceive n] @
              fst (Receive n) @ [WgDone])"
    by (simp add: adapterGoroutine_def)
next
  assume a: "\<forall>i. snd (Receive i) \<noteq> None \<and> snd (Receive i) \<noteq> Some Canceled"
  have "receiveLoop logger Receive 0 [WgAdd] = None"
  proof (rule ccontr)
    assume "receiveLoop logger Receive 0 [WgAdd] \<noteq> None"
    then obtain y where "receiveLoop logger Receive 0 [WgAdd] = Some y"
      by auto
    from receiveLoop_returns_stop [OF this] a show False by blast
  qed
  then show "adapterGoroutine logger Receive = None"
    by (simp add: adapterGoroutine_def)
qed

theorem receive_loop_retries_until_cancelled_witness:
  "snd (exampleReceive 0) = Some (OtherError ''unavailable'') \<and>
   snd (exampleReceive 1) = Some (OtherError ''unavailable'') \<and>
   snd (exampleReceive 2) = Some Canceled \<and>
   adapterGoroutine BaseLogger exampleReceive =
     Some [WgAdd,
           Log (BaseLogger, Verbose, ''Initializing Google Pub/Sub handler''), CallReceive 0,
           Log (BaseLogger, Error,
             ''Failed to receive from Google PubSub, retrying in 1 minute: unavailable''),
           Sleep 60000000000,
           Log (BaseLogger, Verbose, ''Initializing Google Pub/Sub handler''), CallReceive 1,
           Log (BaseLogger, Error,
             ''Failed to receive from Google PubSub, retrying in 1 minute: unavailable''),
           Sleep 60000000000,
           Log (BaseLogger, Verbose, ''Initializing Google Pub/Sub handler''), CallReceive 2,
           Ack, Send (exampleItem 100000000000 ''LOG:  checkpoint starting''),
           WgDone] \<and>
   adapterGoroutine BaseLogger (\<lambda>k. ([], Some (OtherError ''unavailable''))) = None"
proof -
  have h0: "snd (exampleReceive 0) = Some (OtherError ''unavailable'')"
    by (simp add: exampleReceive_def)
  have h1: "(\<forall>i<2. snd (exampleReceive i) \<noteq> None \<and> snd (exampleReceive i) \<noteq> Some Canceled) \<and>
      (snd (exampleReceive 2) = None \<or> snd (exampleReceive 2) = Some Canceled)"
    by (simp add: exampleReceive_def)
  have h2: "\<forall>i. snd ((\<lambda>k. ([] :: action list, Some (OtherError ''unavailable''))) i) \<noteq> None \<and>
      snd ((\<lambda>k. ([] :: action list, Some (OtherError ''unavailable''))) i) \<noteq> Some Canceled"
    by simp
  have msg: "handleMessage Inr exampleTimeParse BaseLogger (exampleMessage ''0001-01-01T00:01:40Z'') =
      [Ack, Send (exampleItem 100000000000 ''LOG:  checkpoint starting'')]"
    by (simp add: handleMessage_def exampleMessage_def exampleTimeParse_def exampleItem_def
          strings_HasSuffix_def strings_SplitN_def index_def Let_def)
  have first: "receiveLoop BaseLogger exampleReceive 0 [WgAdd] =
      receiveLoop BaseLogger exampleReceive (Suc 0)
        ([WgAdd] @
         [Log (BaseLogger, Verbose, ''Initializing Google Pub/Sub handler''), CallReceive 0] @
         fst (exampleReceive 0) @
         [Log (BaseLogger, Error,
             ''Failed to receive from Google PubSub, retrying in 1 minute: '' @ ''unavailable''),
          Sleep 60000000000])"
    using receive_loop_retries_until_cancelled [where Receive = exampleReceive and k = 0 and
        e = "''unavailable''" and logger = BaseLogger and acts = "[WgAdd]", THEN conjunct1] h0
    by blast
  have stop: "adapterGoroutine BaseLogger exampleReceive =
      Some ([WgAdd] @ retriedRounds BaseLogger exampleReceive 0 2 @
            [Log (BaseLogger, Verbose, ''Initializing Google Pub/Sub handler''), CallReceive 2] @
            fst (exampleReceive 2) @ [WgDone])"
    using receive_loop_retries_until_cancelled [where Receive = exampleReceive and n = 2 and
        logger = BaseLogger] h1
    by blast
  have forever: "adapterGoroutine BaseLogger (\<lambda>k. ([], Some (OtherError ''unavailable''))) = None"
    using receive_loop_retries_until_cancelled [where
        Receive = "\<lambda>k. ([] :: action list, Some (OtherError ''unavailable''))" and
        logger = BaseLogger] h2
    by blast
  have rounds: "[WgAdd] @ retriedRounds BaseLogger exampleReceive 0 2 @
            [Log (BaseLogger, Verbose, ''Initializing Google Pub/Sub handler''), CallReceive 2] @
            fst (exampleReceive 2) @ [WgDone] =
          [WgAdd,
           Log (BaseLogger, Verbose, ''Initializing Google Pub/Sub handler''), CallReceive 0,
           Log (BaseLogger, Error,
             ''Failed to receive from Google PubSub, retrying in 1 minute: unavailable''),
           Sleep 60000000000,
           Log (BaseLogger, Verbose, ''Initializing Google Pub/Sub handler''), CallReceive 1,
           Log (BaseLogger, Error,
             ''Failed to receive from Google PubSub, retrying in 1 minute: unavailable''),
           Sleep 60000000000,
           Log (BaseLogger, Verbose, ''Initializing Google Pub/Sub handler''), CallReceive 2,
           Ack, Send (exampleItem 100000000000 ''LOG:  checkpoint starting''),
           WgDone]"
    by (simp add: numeral_2_eq_2 exampleReceive_def msg)
  show ?thesis
    using first stop forever rounds by (simp add: exampleReceive_def)
qed

end
